theory Spec2Isabelle
  imports Complex_Main "HOL-Library.Sublist"
begin

section \<open>JavaScript values\<close>

text \<open>
  The catalog of \<^verbatim>\<open>server.js\<close> holds plain JavaScript objects, and the handlers read
  request bodies that are parsed JSON. A field can hold any JSON value (the create handler
  tests the required fields for truthiness only, the update handler merges any body), so a
  field value is a \<open>jsval\<close>. \<open>Undefined\<close> is what reading a missing property gives; the
  create handler also stores it under \<^verbatim>\<open>description\<close> when the body has none.

  \<open>Num\<close> carries the value of the number as stored (a finite double, as a rational;
  the program only tests such numbers for being zero). Strings are byte strings: the model
  covers ASCII text.
\<close>

datatype jsval =
    Undefined
  | Null
  | Bool bool
  | Num rat
  | Str string
  | Arr "jsval list"
  | Obj "(string \<times> jsval) list"

text \<open>An object at the top level (a product, a request body): its own properties.\<close>

type_synonym jsobject = "string \<rightharpoonup> jsval"

text \<open>\<^verbatim>\<open>o.k\<close>: reading a property that the object does not have gives \<^verbatim>\<open>undefined\<close>.\<close>

definition field :: "jsobject \<Rightarrow> string \<Rightarrow> jsval" where
  "field ob k = (case ob k of None \<Rightarrow> Undefined | Some v \<Rightarrow> v)"

text \<open>ToBoolean, as \<^verbatim>\<open>!name\<close> and \<^verbatim>\<open>if (category)\<close> apply it.\<close>

fun truthy :: "jsval \<Rightarrow> bool" where
  "truthy Undefined = False"
| "truthy Null = False"
| "truthy (Bool b) = b"
| "truthy (Num r) = (r \<noteq> 0)"
| "truthy (Str s) = (s \<noteq> [])"
| "truthy (Arr xs) = True"
| "truthy (Obj kvs) = True"

text \<open>\<^verbatim>\<open>v ?? d\<close>: the default replaces \<^verbatim>\<open>null\<close> and \<^verbatim>\<open>undefined\<close> only.\<close>

fun nullish :: "jsval \<Rightarrow> jsval \<Rightarrow> jsval" where
  "nullish Undefined d = d"
| "nullish Null d = d"
| "nullish v d = v"

subsection \<open>Errors\<close>

text \<open>
  An error object, with the three properties that the global error handler reads.
  \<open>NotFoundError\<close> and \<open>ValidationError\<close> are the two classes of \<^verbatim>\<open>server.js\<close>;
  a \<open>TypeError\<close> is what the engine throws, and it has no \<^verbatim>\<open>statusCode\<close>.
\<close>

record js_error =
  name :: string
  message :: string
  statusCode :: "nat option"

definition NotFoundError :: "string \<Rightarrow> js_error" where
  "NotFoundError msg = \<lparr>name = ''NotFoundError'', message = msg, statusCode = Some 404\<rparr>"

definition ValidationError :: "string \<Rightarrow> js_error" where
  "ValidationError msg = \<lparr>name = ''ValidationError'', message = msg, statusCode = Some 400\<rparr>"

definition TypeError :: "string \<Rightarrow> js_error" where
  "TypeError msg = \<lparr>name = ''TypeError'', message = msg, statusCode = None\<rparr>"

subsection \<open>Strings\<close>

text \<open>\<^verbatim>\<open>String.prototype.toLowerCase\<close> on ASCII text: A to Z become a to z.\<close>

definition lower_char :: "char \<Rightarrow> char" where
  "lower_char c =
     (case map_of (zip ''ABCDEFGHIJKLMNOPQRSTUVWXYZ'' ''abcdefghijklmnopqrstuvwxyz'') c of
        None \<Rightarrow> c
      | Some d \<Rightarrow> d)"

definition str_lower :: "string \<Rightarrow> string" where
  "str_lower s = map lower_char s"

text \<open>
  \<^verbatim>\<open>v.toLowerCase()\<close> for a value of any type: only a string has the method. Reading it
  from \<^verbatim>\<open>undefined\<close> or \<^verbatim>\<open>null\<close> throws, and so does calling what is not a function.
  \<open>expr\<close> is the source text of \<open>v\<close>, which the engine (V8) puts in the message.
\<close>

definition toLowerCase :: "string \<Rightarrow> jsval \<Rightarrow> js_error + string" where
  "toLowerCase expr v =
     (case v of
        Str s \<Rightarrow> Inr (str_lower s)
      | Undefined \<Rightarrow> Inl (TypeError ''Cannot read properties of undefined (reading 'toLowerCase')'')
      | Null \<Rightarrow> Inl (TypeError ''Cannot read properties of null (reading 'toLowerCase')'')
      | _ \<Rightarrow> Inl (TypeError (expr @ ''.toLowerCase is not a function'')))"

text \<open>\<^verbatim>\<open>s.includes(t)\<close>: \<open>t\<close> occurs in \<open>s\<close> at some position.\<close>

fun str_includes :: "string \<Rightarrow> string \<Rightarrow> bool" where
  "str_includes [] t = (t = [])"
| "str_includes (c # s) t = (prefix t (c # s) \<or> str_includes s t)"

subsection \<open>Numbers of the pagination\<close>

text \<open>
  \<^verbatim>\<open>page\<close> and \<^verbatim>\<open>limit\<close> are results of \<^verbatim>\<open>parseInt\<close>: integers, \<^verbatim>\<open>NaN\<close>, or an
  infinity when the digits exceed the range of a double. \<open>Fin i\<close> stands for the double
  nearest to \<open>i\<close> (negative zero is \<open>Fin 0\<close>: \<^verbatim>\<open>slice\<close> treats both zeros alike).
  The arithmetic below is exact on finite values and overflows to an infinity at the
  bound where rounding to a double does, \<open>2 ^ 1024 - 2 ^ 970\<close>; the rounding of integers
  beyond \<open>2 ^ 53\<close> is not modelled (an array has fewer than \<open>2 ^ 32\<close> elements, so
  \<^verbatim>\<open>slice\<close> cannot tell such a value from its neighbours).
\<close>

datatype number = NaN | NegInf | PosInf | Fin int

definition overflow_bound :: int where
  "overflow_bound = 2 ^ 1024 - 2 ^ 970"

definition to_number :: "int \<Rightarrow> number" where
  "to_number i =
     (if overflow_bound \<le> i then PosInf
      else if i \<le> - overflow_bound then NegInf
      else Fin i)"

fun num_add :: "number \<Rightarrow> number \<Rightarrow> number" where
  "num_add NaN y = NaN"
| "num_add x NaN = NaN"
| "num_add PosInf NegInf = NaN"
| "num_add NegInf PosInf = NaN"
| "num_add PosInf y = PosInf"
| "num_add NegInf y = NegInf"
| "num_add (Fin a) PosInf = PosInf"
| "num_add (Fin a) NegInf = NegInf"
| "num_add (Fin a) (Fin b) = to_number (a + b)"

fun num_neg :: "number \<Rightarrow> number" where
  "num_neg NaN = NaN"
| "num_neg NegInf = PosInf"
| "num_neg PosInf = NegInf"
| "num_neg (Fin a) = Fin (- a)"

definition num_sub :: "number \<Rightarrow> number \<Rightarrow> number" where
  "num_sub x y = num_add x (num_neg y)"

text \<open>The sign of an infinite product; zero times an infinity is \<^verbatim>\<open>NaN\<close>.\<close>

definition inf_times :: "bool \<Rightarrow> int \<Rightarrow> number" where
  "inf_times positive a =
     (if a = 0 then NaN else if (0 < a) = positive then PosInf else NegInf)"

fun num_mul :: "number \<Rightarrow> number \<Rightarrow> number" where
  "num_mul NaN y = NaN"
| "num_mul x NaN = NaN"
| "num_mul PosInf PosInf = PosInf"
| "num_mul PosInf NegInf = NegInf"
| "num_mul NegInf PosInf = NegInf"
| "num_mul NegInf NegInf = PosInf"
| "num_mul PosInf (Fin b) = inf_times True b"
| "num_mul NegInf (Fin b) = inf_times False b"
| "num_mul (Fin a) PosInf = inf_times True a"
| "num_mul (Fin a) NegInf = inf_times False a"
| "num_mul (Fin a) (Fin b) = to_number (a * b)"

text \<open>
  \<^verbatim>\<open>parseInt(s)\<close> with no radix: leading white space is skipped, then an optional sign,
  then \<^verbatim>\<open>0x\<close> or \<^verbatim>\<open>0X\<close> selects radix 16 (else 10), then the longest run of digits of
  that radix is read. No digit at all gives \<^verbatim>\<open>NaN\<close>.
\<close>

definition is_space :: "char \<Rightarrow> bool" where
  "is_space c = ((of_char c :: nat) \<in> {9, 10, 11, 12, 13, 32})"

text \<open>The value of a digit; 36 for a character that is no digit.\<close>

definition digit_value :: "char \<Rightarrow> nat" where
  "digit_value c =
     (let n = (of_char c :: nat) in
      if 48 \<le> n \<and> n \<le> 57 then n - 48
      else if 97 \<le> n \<and> n \<le> 122 then n - 87
      else if 65 \<le> n \<and> n \<le> 90 then n - 55
      else 36)"

definition digits_value :: "nat \<Rightarrow> string \<Rightarrow> nat" where
  "digits_value R Z = foldl (\<lambda>acc c. acc * R + digit_value c) 0 Z"

definition parseInt :: "string \<Rightarrow> number" where
  "parseInt inputString =
     (let S = dropWhile is_space inputString;
          sign = (if take 1 S = ''-'' then - 1 else 1 :: int);
          S1 = (if take 1 S = ''-'' \<or> take 1 S = ''+'' then drop 1 S else S);
          hex = (take 2 S1 = ''0x'' \<or> take 2 S1 = ''0X'');
          R = (if hex then 16 else 10);
          S2 = (if hex then drop 2 S1 else S1);
          Z = takeWhile (\<lambda>c. digit_value c < R) S2
      in if Z = [] then NaN else to_number (sign * int (digits_value R Z)))"

text \<open>
  \<^verbatim>\<open>Array.prototype.slice(start, end)\<close>. Each bound goes through ToIntegerOrInfinity
  (\<^verbatim>\<open>NaN\<close> becomes 0), a negative bound counts from the end, and both are clamped to
  the length.
\<close>

definition rel_index :: "nat \<Rightarrow> number \<Rightarrow> nat" where
  "rel_index len x =
     (case x of
        NaN \<Rightarrow> 0
      | NegInf \<Rightarrow> 0
      | PosInf \<Rightarrow> len
      | Fin i \<Rightarrow> if i < 0 then nat (max (int len + i) 0) else min (nat i) len)"

definition slice :: "'a list \<Rightarrow> number \<Rightarrow> number \<Rightarrow> 'a list" where
  "slice xs start end =
     (let k = rel_index (length xs) start;
          final = rel_index (length xs) end
      in take (final - k) (drop k xs))"

section \<open>Requests\<close>

text \<open>
  A value of \<^verbatim>\<open>req.query\<close>. The query parser of Express gives a string for a parameter
  that occurs once, an array for one that is repeated (\<^verbatim>\<open>?category=a&category=b\<close>) and
  an object for bracketed names (\<^verbatim>\<open>?category[x]=a\<close>).
\<close>

datatype qval = QStr string | QArr "qval list" | QObj "(string \<times> qval) list"

type_synonym query = "string \<rightharpoonup> qval"

text \<open>
  ToString, which \<^verbatim>\<open>parseInt\<close> applies to its argument first. A string is itself. An
  array is the strings of its elements, in order, joined by commas (\<open>q_join\<close>). An object
  goes through its \<^verbatim>\<open>toString\<close> property: the inherited method gives
  \<^verbatim>\<open>[object Object]\<close>, but an own property of that name (\<^verbatim>\<open>?page[toString]=x\<close>; Express
  lets the parser keep such names) is a string, an array or an object, never a
  function, and then the conversion throws a \<^verbatim>\<open>TypeError\<close>.
\<close>

fun q_to_string :: "qval \<Rightarrow> js_error + string"
  and q_join :: "qval list \<Rightarrow> js_error + string" where
  "q_to_string (QStr s) = Inr s"
| "q_to_string (QArr vs) = q_join vs"
| "q_to_string (QObj kvs) =
     (if map_of kvs ''toString'' = None then Inr ''[object Object]''
      else Inl (TypeError ''Cannot convert object to primitive value''))"
| "q_join [] = Inr []"
| "q_join [v] = q_to_string v"
| "q_join (v # w # vs) =
     (case q_to_string v of
        Inl e \<Rightarrow> Inl e
      | Inr s \<Rightarrow>
          (case q_join (w # vs) of
             Inl e \<Rightarrow> Inl e
           | Inr t \<Rightarrow> Inr (s @ '','' @ t)))"

text \<open>The query value as the JavaScript value the handler holds.\<close>

fun q_value :: "qval \<Rightarrow> jsval" where
  "q_value (QStr s) = Str s"
| "q_value (QArr vs) = Arr (map q_value vs)"
| "q_value (QObj kvs) = Obj (map (\<lambda>(k, v). (k, q_value v)) kvs)"

text \<open>A parameter that is absent is \<^verbatim>\<open>undefined\<close>.\<close>

definition q_param :: "query \<Rightarrow> string \<Rightarrow> jsval" where
  "q_param q k = (case q k of None \<Rightarrow> Undefined | Some v \<Rightarrow> q_value v)"

datatype http_method = GET | HEAD | POST | PUT | DELETE | OTHER

text \<open>
  What the handlers and the middleware read of a request. \<open>path\<close> is the list of the
  decoded segments of the URL path (\<^verbatim>\<open>/api/products/1\<close> is
  \<open>[''api'', ''products'', ''1'']\<close>, \<^verbatim>\<open>/\<close> is \<open>[]\<close>; a slash at the end adds no
  segment, as Express routes without regard to it). \<open>api_key\<close> is the header
  \<^verbatim>\<open>x-api-key\<close>, \<open>None\<close> when the request has none. \<open>body\<close> is the outcome of the
  JSON body parser: \<^verbatim>\<open>req.body\<close>, the parsed object (the empty object when the request
  has no JSON body; an array is the object of its indices), or the error the parser
  passes on for a body it rejects, such as a \<^verbatim>\<open>SyntaxError\<close> with status code 400 for
  text that is not JSON.
\<close>

record request =
  req_method :: http_method
  path :: "string list"
  api_key :: "string option"
  query :: query
  body :: "js_error + jsobject"

section \<open>The catalog\<close>

type_synonym product = jsobject

type_synonym catalog = "product list"

definition seed :: catalog where
  "seed =
    [ [''id'' \<mapsto> Str ''1'', ''name'' \<mapsto> Str ''Laptop'',
       ''description'' \<mapsto> Str ''High-performance laptop with 16GB RAM'',
       ''price'' \<mapsto> Num 1200, ''category'' \<mapsto> Str ''electronics'', ''inStock'' \<mapsto> Bool True],
      [''id'' \<mapsto> Str ''2'', ''name'' \<mapsto> Str ''Smartphone'',
       ''description'' \<mapsto> Str ''Latest model with 128GB storage'',
       ''price'' \<mapsto> Num 800, ''category'' \<mapsto> Str ''electronics'', ''inStock'' \<mapsto> Bool True],
      [''id'' \<mapsto> Str ''3'', ''name'' \<mapsto> Str ''Coffee Maker'',
       ''description'' \<mapsto> Str ''Programmable coffee maker with timer'',
       ''price'' \<mapsto> Num 50, ''category'' \<mapsto> Str ''kitchen'', ''inStock'' \<mapsto> Bool False] ]"

text \<open>\<^verbatim>\<open>Array.prototype.findIndex\<close>: the first index whose element satisfies \<open>P\<close>, or -1.\<close>

fun findIndex :: "('a \<Rightarrow> bool) \<Rightarrow> 'a list \<Rightarrow> int" where
  "findIndex P [] = - 1"
| "findIndex P (x # xs) =
     (if P x then 0 else (let i = findIndex P xs in if i = - 1 then - 1 else i + 1))"

text \<open>\<^verbatim>\<open>p => p.id === req.params.id\<close>\<close>

definition has_id :: "jsval \<Rightarrow> product \<Rightarrow> bool" where
  "has_id rid p = (field p ''id'' = rid)"

section \<open>Listing: filter, search, pagination\<close>

text \<open>
  \<^verbatim>\<open>Array.prototype.filter\<close> with a callback that can throw: the elements are visited
  in order, and the first exception ends the call.
\<close>

fun filterE :: "('a \<Rightarrow> js_error + bool) \<Rightarrow> 'a list \<Rightarrow> js_error + 'a list" where
  "filterE f [] = Inr []"
| "filterE f (x # xs) =
     (case f x of
        Inl e \<Rightarrow> Inl e
      | Inr keep \<Rightarrow>
          (case filterE f xs of
             Inl e \<Rightarrow> Inl e
           | Inr ys \<Rightarrow> Inr (if keep then x # ys else ys)))"

text \<open>\<^verbatim>\<open>p => p.category.toLowerCase() === category.toLowerCase()\<close>, left operand first.\<close>

definition category_matches :: "jsval \<Rightarrow> product \<Rightarrow> js_error + bool" where
  "category_matches category p =
     (case toLowerCase ''p.category'' (field p ''category'') of
        Inl e \<Rightarrow> Inl e
      | Inr a \<Rightarrow>
          (case toLowerCase ''category'' category of
             Inl e \<Rightarrow> Inl e
           | Inr b \<Rightarrow> Inr (a = b)))"

text \<open>\<^verbatim>\<open>p => p.name.toLowerCase().includes(search.toLowerCase())\<close>\<close>

definition search_matches :: "jsval \<Rightarrow> product \<Rightarrow> js_error + bool" where
  "search_matches search p =
     (case toLowerCase ''p.name'' (field p ''name'') of
        Inl e \<Rightarrow> Inl e
      | Inr a \<Rightarrow>
          (case toLowerCase ''search'' search of
             Inl e \<Rightarrow> Inl e
           | Inr b \<Rightarrow> Inr (str_includes a b)))"

text \<open>Lines 94 to 104: the two optional filters, each applied when its parameter is truthy.\<close>

definition filter_products :: "catalog \<Rightarrow> query \<Rightarrow> js_error + catalog" where
  "filter_products products q =
     (let category = q_param q ''category'';
          search = q_param q ''search''
      in case (if truthy category then filterE (category_matches category) products
               else Inr products) of
           Inl e \<Rightarrow> Inl e
         | Inr filtered \<Rightarrow>
             if truthy search then filterE (search_matches search) filtered else Inr filtered)"

text \<open>
  Lines 91 to 93: \<^verbatim>\<open>page = 1\<close> and \<^verbatim>\<open>limit = 5\<close> stand in for an absent parameter,
  then \<^verbatim>\<open>parseInt\<close> (of the numbers 1 and 5 it is 1 and 5). \<^verbatim>\<open>parseInt\<close> throws what
  the conversion of its argument to a string throws.
\<close>

definition parseInt_value :: "qval \<Rightarrow> js_error + number" where
  "parseInt_value v = (case q_to_string v of Inl e \<Rightarrow> Inl e | Inr s \<Rightarrow> Inr (parseInt s))"

definition query_page :: "query \<Rightarrow> js_error + number" where
  "query_page q = (case q ''page'' of None \<Rightarrow> Inr (Fin 1) | Some v \<Rightarrow> parseInt_value v)"

definition query_limit :: "query \<Rightarrow> js_error + number" where
  "query_limit q = (case q ''limit'' of None \<Rightarrow> Inr (Fin 5) | Some v \<Rightarrow> parseInt_value v)"

record page_result =
  page :: number
  total :: nat
  results :: "product list"

text \<open>Lines 106 to 115.\<close>

definition paginate :: "catalog \<Rightarrow> number \<Rightarrow> number \<Rightarrow> page_result" where
  "paginate filtered pg limit =
     (let startIndex = num_mul (num_sub pg (Fin 1)) limit;
          endIndex = num_add startIndex limit;
          paginated = slice filtered startIndex endIndex
      in \<lparr>page = pg, total = length filtered, results = paginated\<rparr>)"

text \<open>
  The handler of \<^verbatim>\<open>GET /api/products\<close>, in the order of its statements: the page, or
  the first exception thrown, by \<^verbatim>\<open>parseInt(page)\<close>, by \<^verbatim>\<open>parseInt(limit)\<close> or by a
  filter.
\<close>

definition list_products :: "catalog \<Rightarrow> query \<Rightarrow> js_error + page_result" where
  "list_products products q =
     (case query_page q of
        Inl e \<Rightarrow> Inl e
      | Inr pg \<Rightarrow>
          (case query_limit q of
             Inl e \<Rightarrow> Inl e
           | Inr limit \<Rightarrow>
               (case filter_products products q of
                  Inl e \<Rightarrow> Inl e
                | Inr filtered \<Rightarrow> Inr (paginate filtered pg limit))))"

section \<open>Responses\<close>

text \<open>
  What a handler hands to \<^verbatim>\<open>res.send\<close> or \<^verbatim>\<open>res.json\<close>: the welcome text, a page, a
  product, the reply of the delete handler (\<^verbatim>\<open>message\<close> and \<^verbatim>\<open>product\<close>), the counts
  of the stats handler, or the reply of the error handler (\<^verbatim>\<open>error\<close> and \<^verbatim>\<open>message\<close>).
\<close>

datatype reply =
    Text string
  | PageJson page_result
  | ProductJson product
  | DeletedJson string product
  | StatsJson "jsval \<rightharpoonup> nat"
  | ErrorJson string string

record response =
  status :: nat
  content :: reply

text \<open>
  A handler either replies or passes an error to \<^verbatim>\<open>next\<close> (a thrown exception reaches
  \<^verbatim>\<open>next\<close> as well: Express catches it); with it comes the catalog as the handler
  leaves it.
\<close>

type_synonym outcome = "(js_error + response) \<times> catalog"

section \<open>Route handlers\<close>

text \<open>\<^verbatim>\<open>GET /\<close>\<close>

definition root_handler :: "catalog \<Rightarrow> outcome" where
  "root_handler products =
     (Inr \<lparr>status = 200, content = Text ''Welcome to the Product API! Visit /api/products''\<rparr>,
      products)"

text \<open>\<^verbatim>\<open>GET /api/products\<close>\<close>

definition list_handler :: "catalog \<Rightarrow> query \<Rightarrow> outcome" where
  "list_handler products q =
     (case list_products products q of
        Inl e \<Rightarrow> (Inl e, products)
      | Inr r \<Rightarrow> (Inr \<lparr>status = 200, content = PageJson r\<rparr>, products))"

text \<open>\<^verbatim>\<open>GET /api/products/:id\<close>\<close>

definition get_product :: "catalog \<Rightarrow> jsval \<Rightarrow> outcome" where
  "get_product products rid =
     (case find (has_id rid) products of
        None \<Rightarrow> (Inl (NotFoundError ''Product not found''), products)
      | Some product \<Rightarrow> (Inr \<lparr>status = 200, content = ProductJson product\<rparr>, products))"

text \<open>
  \<^verbatim>\<open>POST /api/products\<close>. \<open>uuid\<close> is the string that \<^verbatim>\<open>uuidv4()\<close> returns in this
  request.
\<close>

definition create_product :: "catalog \<Rightarrow> jsobject \<Rightarrow> string \<Rightarrow> outcome" where
  "create_product products b uuid =
     (let name = field b ''name'';
          description = field b ''description'';
          price = field b ''price'';
          category = field b ''category'';
          inStock = field b ''inStock''
      in if \<not> truthy name \<or> \<not> truthy price \<or> \<not> truthy category
         then (Inl (ValidationError ''Name, price, and category are required''), products)
         else
           (let newProduct =
                  [''id'' \<mapsto> Str uuid,
                   ''name'' \<mapsto> name,
                   ''description'' \<mapsto> description,
                   ''price'' \<mapsto> price,
                   ''category'' \<mapsto> category,
                   ''inStock'' \<mapsto> nullish inStock (Bool True)]
            in (Inr \<lparr>status = 201, content = ProductJson newProduct\<rparr>,
                products @ [newProduct])))"

text \<open>
  \<^verbatim>\<open>PUT /api/products/:id\<close>. The spread \<^verbatim>\<open>{ ...products[index], ...req.body }\<close> has the
  properties of both objects, those of the body winning.
\<close>

definition update_product :: "catalog \<Rightarrow> jsval \<Rightarrow> jsobject \<Rightarrow> outcome" where
  "update_product products rid b =
     (let index = findIndex (has_id rid) products
      in if index = - 1 then (Inl (NotFoundError ''Product not found''), products)
         else
           (let products' = products[nat index := (products ! nat index) ++ b]
            in (Inr \<lparr>status = 200, content = ProductJson (products' ! nat index)\<rparr>,
                products')))"

text \<open>
  \<^verbatim>\<open>DELETE /api/products/:id\<close>; \<^verbatim>\<open>splice(index, 1)\<close> takes the element at \<open>index\<close>
  out of the array and returns it.
\<close>

definition delete_product :: "catalog \<Rightarrow> jsval \<Rightarrow> outcome" where
  "delete_product products rid =
     (let index = findIndex (has_id rid) products
      in if index = - 1 then (Inl (NotFoundError ''Product not found''), products)
         else
           (let deleted = products ! nat index;
                products' = take (nat index) products @ drop (nat index + 1) products
            in (Inr \<lparr>status = 200, content = DeletedJson ''Product deleted'' deleted\<rparr>,
                products')))"

text \<open>
  \<^verbatim>\<open>GET /api/products/stats\<close>: \<^verbatim>\<open>stats[cat] = (stats[cat] || 0) + 1\<close> for each product.
  No request reaches this handler (\<open>stats_never_matched\<close> below), and nothing proved
  here depends on the counts. They are keyed here by the category value itself, which
  is what JavaScript does for categories that are strings other than the names every
  object inherits (\<^verbatim>\<open>toString\<close>, \<^verbatim>\<open>constructor\<close> and the like). JavaScript keys by
  the string image of the value: it counts the number 5 and the string \<^verbatim>\<open>5\<close> together,
  and for an inherited name it starts from the inherited value instead of 0; the model
  does neither.
\<close>

definition count_category :: "(jsval \<rightharpoonup> nat) \<Rightarrow> product \<Rightarrow> (jsval \<rightharpoonup> nat)" where
  "count_category stats p =
     (let cat = field p ''category''
      in stats(cat \<mapsto> (case stats cat of None \<Rightarrow> 0 | Some n \<Rightarrow> if n = 0 then 0 else n) + 1))"

definition stats_handler :: "catalog \<Rightarrow> outcome" where
  "stats_handler products =
     (Inr \<lparr>status = 200, content = StatsJson (foldl count_category Map.empty products)\<rparr>,
      products)"

section \<open>The request pipeline\<close>

text \<open>
  The global error handler:
  \<^verbatim>\<open>res.status(err.statusCode || 500).json({ error: err.name, message: err.message })\<close>.
\<close>

definition error_handler :: "js_error \<Rightarrow> response" where
  "error_handler err =
     \<lparr>status = (case statusCode err of
                  None \<Rightarrow> 500
                | Some c \<Rightarrow> if c = 0 then 500 else c),
      content = ErrorJson (name err) (message err)\<rparr>"

text \<open>
  The routes, in the order in which \<^verbatim>\<open>server.js\<close> registers them. A segment of a route
  path is a literal or a parameter (\<^verbatim>\<open>:id\<close>).
\<close>

datatype segment = Lit string | Param string

datatype handler =
    Root | ListProducts | GetProduct | CreateProduct | UpdateProduct | DeleteProduct | Stats

definition routes :: "(http_method \<times> segment list \<times> handler) list" where
  "routes =
    [ (GET, [], Root),
      (GET, [Lit ''api'', Lit ''products''], ListProducts),
      (GET, [Lit ''api'', Lit ''products'', Param ''id''], GetProduct),
      (POST, [Lit ''api'', Lit ''products''], CreateProduct),
      (PUT, [Lit ''api'', Lit ''products'', Param ''id''], UpdateProduct),
      (DELETE, [Lit ''api'', Lit ''products'', Param ''id''], DeleteProduct),
      (GET, [Lit ''api'', Lit ''products'', Lit ''stats''], Stats) ]"

text \<open>
  Express matches a route path segment by segment: a literal without regard to case, a
  parameter against any segment that is not empty, which it binds in \<^verbatim>\<open>req.params\<close>.
\<close>

fun match_path :: "segment list \<Rightarrow> string list \<Rightarrow> (string \<rightharpoonup> string) option" where
  "match_path [] [] = Some Map.empty"
| "match_path (Lit l # pat) (s # segs) =
     (if str_lower s = str_lower l then match_path pat segs else None)"
| "match_path (Param n # pat) (s # segs) =
     (if s = [] then None
      else (case match_path pat segs of None \<Rightarrow> None | Some ps \<Rightarrow> Some (ps(n \<mapsto> s))))"
| "match_path pat segs = None"

text \<open>A route registered with \<^verbatim>\<open>app.get\<close> serves HEAD requests as well.\<close>

definition handles_method :: "http_method \<Rightarrow> http_method \<Rightarrow> bool" where
  "handles_method route_method m = (route_method = (if m = HEAD then GET else m))"

text \<open>
  The router tries the routes in order and runs the first whose method and path match.
  No handler of \<^verbatim>\<open>server.js\<close> calls \<^verbatim>\<open>next()\<close> without an error, so no second route
  runs for a request.
\<close>

fun first_match ::
  "(http_method \<times> segment list \<times> handler) list \<Rightarrow> http_method \<Rightarrow> string list
     \<Rightarrow> (handler \<times> (string \<rightharpoonup> string)) option" where
  "first_match [] m p = None"
| "first_match ((rm, pat, h) # rs) m p =
     (if handles_method rm m
      then (case match_path pat p of
              None \<Rightarrow> first_match rs m p
            | Some ps \<Rightarrow> Some (h, ps))
      else first_match rs m p)"

text \<open>\<^verbatim>\<open>req.params.id\<close>\<close>

definition param :: "(string \<rightharpoonup> string) \<Rightarrow> string \<Rightarrow> jsval" where
  "param ps k = (case ps k of None \<Rightarrow> Undefined | Some s \<Rightarrow> Str s)"

definition run_handler ::
  "handler \<Rightarrow> (string \<rightharpoonup> string) \<Rightarrow> catalog \<Rightarrow> query \<Rightarrow> jsobject \<Rightarrow> string \<Rightarrow> outcome" where
  "run_handler h ps products q b uuid =
     (case h of
        Root \<Rightarrow> root_handler products
      | ListProducts \<Rightarrow> list_handler products q
      | GetProduct \<Rightarrow> get_product products (param ps ''id'')
      | CreateProduct \<Rightarrow> create_product products b uuid
      | UpdateProduct \<Rightarrow> update_product products (param ps ''id'') b
      | DeleteProduct \<Rightarrow> delete_product products (param ps ''id'')
      | Stats \<Rightarrow> stats_handler products)"

text \<open>
  One request through the application, in the order of the \<^verbatim>\<open>app.use\<close> calls: the JSON
  body parser (line 10, and again line 43), the check of the API key (line 46), the
  routes, the handler for unknown routes (line 180); any error goes to the global error
  handler (line 185). The logger (line 36) only writes to the console. The result is the
  response and the catalog after the request.
\<close>

definition handle :: "catalog \<Rightarrow> request \<Rightarrow> string \<Rightarrow> response \<times> catalog" where
  "handle products req uuid =
     (case body req of
        Inl err \<Rightarrow> (error_handler err, products)
      | Inr b \<Rightarrow>
          if api_key req \<noteq> Some ''mysecurekey''
          then (error_handler (ValidationError ''Forbidden. Invalid API Key.''), products)
          else
            (case first_match routes (req_method req) (path req) of
               None \<Rightarrow> (error_handler (NotFoundError ''Route not found''), products)
             | Some (h, ps) \<Rightarrow>
                 (case run_handler h ps products (query req) b uuid of
                    (Inl err, products') \<Rightarrow> (error_handler err, products')
                  | (Inr res, products') \<Rightarrow> (res, products'))))"

section \<open>Notions of the specification\<close>

text \<open>A required field of a body is missing or falsy.\<close>

definition missing_or_falsy :: "jsobject \<Rightarrow> string \<Rightarrow> bool" where
  "missing_or_falsy b k = (case b k of None \<Rightarrow> True | Some v \<Rightarrow> \<not> truthy v)"

text \<open>Every product id is unique in the catalog.\<close>

definition unique_ids :: "catalog \<Rightarrow> bool" where
  "unique_ids products = distinct (map (\<lambda>p. field p ''id'') products)"

text \<open>The half-open slice \<open>[a, b)\<close> of a sequence.\<close>

definition half_open_slice :: "'a list \<Rightarrow> nat \<Rightarrow> nat \<Rightarrow> 'a list" where
  "half_open_slice xs a b = take (b - a) (drop a xs)"

text \<open>Case-insensitive equality, and case-insensitive containment as a substring.\<close>

definition equals_ignoring_case :: "string \<Rightarrow> string \<Rightarrow> bool" where
  "equals_ignoring_case s t = (str_lower s = str_lower t)"

definition contains_ignoring_case :: "string \<Rightarrow> string \<Rightarrow> bool" where
  "contains_ignoring_case s t = sublist (str_lower t) (str_lower s)"

text \<open>
  A product matches the category filter, and the search filter; a parameter or a field
  that is not a string matches nothing.
\<close>

definition matches_category :: "jsval \<Rightarrow> product \<Rightarrow> bool" where
  "matches_category category p =
     (case (category, field p ''category'') of
        (Str c, Str pc) \<Rightarrow> equals_ignoring_case pc c
      | _ \<Rightarrow> False)"

definition matches_search :: "jsval \<Rightarrow> product \<Rightarrow> bool" where
  "matches_search search p =
     (case (search, field p ''name'') of
        (Str s, Str pn) \<Rightarrow> contains_ignoring_case pn s
      | _ \<Rightarrow> False)"

text \<open>A product satisfies the filters of a query: each one that is given (not empty).\<close>

definition satisfies_filters :: "query \<Rightarrow> product \<Rightarrow> bool" where
  "satisfies_filters q p =
     ((truthy (q_param q ''category'') \<longrightarrow> matches_category (q_param q ''category'') p)
      \<and> (truthy (q_param q ''search'') \<longrightarrow> matches_search (q_param q ''search'') p))"

text \<open>A value is a string.\<close>

definition is_string :: "jsval \<Rightarrow> bool" where
  "is_string v = (case v of Str s \<Rightarrow> True | _ \<Rightarrow> False)"



text \<open>
  Neither filter of a query throws on a catalog. The category filter, when it is given,
  needs the parameter and the category of every product to be strings; the search
  filter, when it is given, needs the parameter and the name of every product that
  passed the category filter to be strings.
\<close>

definition filters_apply :: "catalog \<Rightarrow> query \<Rightarrow> bool" where
  "filters_apply products q =
     (let category = q_param q ''category'';
          search = q_param q ''search'';
          passed = (if truthy category then filter (matches_category category) products
                    else products)
      in (truthy category \<longrightarrow>
            (\<forall>p\<in>set products. is_string category \<and> is_string (field p ''category'')))
         \<and> (truthy search \<longrightarrow>
              (\<forall>p\<in>set passed. is_string search \<and> is_string (field p ''name''))))"

text \<open>The ids of the catalog, in its order.\<close>

definition ids_of :: "catalog \<Rightarrow> jsval list" where
  "ids_of products = map (\<lambda>p. field p ''id'') products"

text \<open>A request whose body has no \<^verbatim>\<open>id\<close> field.\<close>

definition keeps_id :: "request \<Rightarrow> bool" where
  "keeps_id req = (case body req of Inl e \<Rightarrow> True | Inr b \<Rightarrow> b ''id'' = None)"

text \<open>The catalog after a sequence of requests, each with the uuid generated for it.\<close>

fun run_requests :: "catalog \<Rightarrow> (request \<times> string) list \<Rightarrow> catalog" where
  "run_requests products [] = products"
| "run_requests products ((req, uuid) # rs) = run_requests (snd (handle products req uuid)) rs"

text \<open>
  Along the sequence, no body has an \<^verbatim>\<open>id\<close> field, and each generated uuid is the id
  of no product of the catalog at that moment.
\<close>

fun well_behaved :: "catalog \<Rightarrow> (request \<times> string) list \<Rightarrow> bool" where
  "well_behaved products [] = True"
| "well_behaved products ((req, uuid) # rs) =
     (keeps_id req \<and> Str uuid \<notin> set (ids_of products)
      \<and> well_behaved (snd (handle products req uuid)) rs)"

section \<open>Basic facts\<close>

lemma findIndex_ge: "- 1 \<le> findIndex P xs"
  by (induction xs) (auto simp: Let_def)

lemma findIndex_none: "(findIndex P xs = - 1) = (\<forall>x\<in>set xs. \<not> P x)"
proof (induction xs)
  case Nil
  show ?case by simp
next
  case (Cons x xs)
  have "- 1 \<le> findIndex P xs" by (rule findIndex_ge)
  with Cons show ?case by (auto simp: Let_def)
qed

lemma findIndex_found:
  assumes "findIndex P xs \<noteq> - 1"
  shows "0 \<le> findIndex P xs \<and> nat (findIndex P xs) < length xs
         \<and> P (xs ! nat (findIndex P xs))
         \<and> (\<forall>j < nat (findIndex P xs). \<not> P (xs ! j))"
  using assms
proof (induction xs)
  case Nil
  then show ?case by simp
next
  case (Cons x xs)
  show ?case
  proof (cases "P x")
    case True
    then show ?thesis by simp
  next
    case False
    with Cons.prems have ne: "findIndex P xs \<noteq> - 1"
      by (auto simp: Let_def split: if_splits)
    from Cons.IH [OF ne] have ih: "0 \<le> findIndex P xs" "nat (findIndex P xs) < length xs"
        "P (xs ! nat (findIndex P xs))" "\<forall>j < nat (findIndex P xs). \<not> P (xs ! j)"
      by simp_all
    have eq: "findIndex P (x # xs) = findIndex P xs + 1"
      using False ne by (simp add: Let_def)
    have n: "nat (findIndex P xs + 1) = Suc (nat (findIndex P xs))"
      using ih(1) by simp
    show ?thesis
      unfolding eq n using ih False
      by (auto simp: nth_Cons split: nat.splits)
  qed
qed

lemma find_none: "\<forall>x\<in>set xs. \<not> P x \<Longrightarrow> find P xs = None"
  by (induction xs) auto

subsection \<open>Routing\<close>

lemma route_delete:
  "rid \<noteq> [] \<Longrightarrow>
     first_match routes DELETE [''api'', ''products'', rid] =
       Some (DeleteProduct, [''id'' \<mapsto> rid])"
  by (simp add: routes_def handles_method_def)

lemma route_put:
  "rid \<noteq> [] \<Longrightarrow>
     first_match routes PUT [''api'', ''products'', rid] =
       Some (UpdateProduct, [''id'' \<mapsto> rid])"
  by (simp add: routes_def handles_method_def)

lemma route_get_id:
  "rid \<noteq> [] \<Longrightarrow>
     first_match routes GET [''api'', ''products'', rid] = Some (GetProduct, [''id'' \<mapsto> rid])"
  by (simp add: routes_def handles_method_def)

lemma route_post:
  "first_match routes POST [''api'', ''products''] = Some (CreateProduct, Map.empty)"
  by (simp add: routes_def handles_method_def)

lemma route_list:
  "first_match routes GET [''api'', ''products''] = Some (ListProducts, Map.empty)"
  by (simp add: routes_def handles_method_def)

lemma str_lower_Nil_iff: "(str_lower s = []) = (s = [])"
  by (simp add: str_lower_def)

lemma match_Lit:
  "match_path (Lit l # pat) p = Some ps \<Longrightarrow>
     \<exists>s segs. p = s # segs \<and> str_lower s = str_lower l \<and> match_path pat segs = Some ps"
  by (cases p) (auto split: if_splits)

lemma match_Nil: "match_path [] p = Some ps \<Longrightarrow> p = []"
  by (cases p) auto

text \<open>
  A path that matches three literals also matches the pattern whose last segment is a
  parameter instead: this is how \<^verbatim>\<open>/:id\<close> shadows \<^verbatim>\<open>/stats\<close>.
\<close>

lemma lit_then_param:
  assumes "match_path [Lit a, Lit b, Lit c] p = Some ps" and "c \<noteq> []"
  shows "\<exists>ps'. match_path [Lit a, Lit b, Param n] p = Some ps'"
proof -
  from match_Lit [OF assms(1)] obtain s1 r1 where
    1: "p = s1 # r1" "str_lower s1 = str_lower a" "match_path [Lit b, Lit c] r1 = Some ps"
    by blast
  from match_Lit [OF 1(3)] obtain s2 r2 where
    2: "r1 = s2 # r2" "str_lower s2 = str_lower b" "match_path [Lit c] r2 = Some ps"
    by blast
  from match_Lit [OF 2(3)] obtain s3 r3 where
    3: "r2 = s3 # r3" "str_lower s3 = str_lower c" "match_path [] r3 = Some ps"
    by blast
  from match_Nil [OF 3(3)] have 4: "r3 = []" .
  from 3(2) assms(2) have "s3 \<noteq> []"
    using str_lower_Nil_iff by metis
  with 1 2 3 4 show ?thesis by simp
qed

lemma stats_never_matched:
  assumes "first_match routes m p = Some (h, ps)"
  shows "h \<noteq> Stats"
proof
  assume "h = Stats"
  with assms have
    "match_path [Lit ''api'', Lit ''products'', Lit ''stats''] p = Some ps
     \<and> match_path [Lit ''api'', Lit ''products'', Param ''id''] p = None"
    by (auto simp: routes_def handles_method_def split: if_splits option.splits)
  moreover have "''stats'' \<noteq> []" by simp
  ultimately show False
    using lit_then_param [of "''api''" "''products''" "''stats''" p ps "''id''"] by simp
qed

subsection \<open>The pipeline on a request that passes the parser and the key check\<close>

lemma handle_routed:
  assumes "body req = Inr b" and "api_key req = Some ''mysecurekey''"
    and "first_match routes (req_method req) (path req) = Some (h, ps)"
  shows "handle products req uuid =
     (case run_handler h ps products (query req) b uuid of
        (Inl err, products') \<Rightarrow> (error_handler err, products')
      | (Inr res, products') \<Rightarrow> (res, products'))"
  using assms by (simp add: handle_def)

lemma error_handler_NotFound:
  "error_handler (NotFoundError msg) =
     \<lparr>status = 404, content = ErrorJson ''NotFoundError'' msg\<rparr>"
  by (simp add: error_handler_def NotFoundError_def)

lemma error_handler_Validation:
  "error_handler (ValidationError msg) =
     \<lparr>status = 400, content = ErrorJson ''ValidationError'' msg\<rparr>"
  by (simp add: error_handler_def ValidationError_def)

lemma error_handler_Type:
  "error_handler (TypeError msg) = \<lparr>status = 500, content = ErrorJson ''TypeError'' msg\<rparr>"
  by (simp add: error_handler_def TypeError_def)

lemma param_id: "param [''id'' \<mapsto> rid] ''id'' = Str rid"
  by (simp add: param_def)

section \<open>Deleting\<close>

text \<open>
  Claim C9. For every catalog and every id that no product of the catalog has,
  \<^verbatim>\<open>DELETE /api/products/:id\<close> answers 404 with the error \<^verbatim>\<open>NotFoundError\<close> and leaves
  the catalog exactly as it was.
\<close>

theorem delete_unknown_id:
  assumes "req_method req = DELETE" and "path req = [''api'', ''products'', rid]" and "rid \<noteq> []"
    and "api_key req = Some ''mysecurekey''" and "body req = Inr b"
    and "\<forall>p\<in>set products. field p ''id'' \<noteq> Str rid"
  shows "handle products req uuid =
           (\<lparr>status = 404, content = ErrorJson ''NotFoundError'' ''Product not found''\<rparr>,
            products)"
proof -
  have r: "first_match routes (req_method req) (path req) = Some (DeleteProduct, [''id'' \<mapsto> rid])"
    using assms(1,2,3) by (simp add: route_delete)
  have "findIndex (has_id (Str rid)) products = - 1"
    using assms(6) by (simp add: findIndex_none has_id_def)
  then have "delete_product products (Str rid) =
      (Inl (NotFoundError ''Product not found''), products)"
    by (simp add: delete_product_def)
  then show ?thesis
    by (simp add: handle_routed [OF assms(5,4) r] run_handler_def param_id
        error_handler_NotFound)
qed

theorem delete_unknown_id_witness:
  "handle seed
     \<lparr>req_method = DELETE, path = [''api'', ''products'', ''9''],
      api_key = Some ''mysecurekey'', query = Map.empty, body = Inr Map.empty\<rparr>
     ''110ec58a-a0f2-4ac4-8393-c866d813b8d1'' =
   (\<lparr>status = 404, content = ErrorJson ''NotFoundError'' ''Product not found''\<rparr>, seed)"
proof -
  have h: "\<forall>p\<in>set seed. field p ''id'' \<noteq> Str ''9''"
    by (simp add: seed_def field_def)
  show ?thesis
    using h delete_unknown_id
      [where req = "\<lparr>req_method = DELETE, path = [''api'', ''products'', ''9''],
         api_key = Some ''mysecurekey'', query = Map.empty, body = Inr Map.empty\<rparr>"
       and rid = "''9''" and b = Map.empty and products = seed
       and uuid = "''110ec58a-a0f2-4ac4-8393-c866d813b8d1''"]
    by simp
qed

section \<open>Updating\<close>

text \<open>
  Claim C6. For every \<^verbatim>\<open>PUT /api/products/:id\<close> on an existing product (the first one
  of the catalog with that id), the stored record after the request is the old record
  merged with the body: every field absent from the body keeps its value, every field
  present in the body has the body's value. The response is 200 with the merged record,
  and the other records of the catalog stay as they are.
\<close>

theorem update_merges_body:
  assumes "req_method req = PUT" and "path req = [''api'', ''products'', rid]"
    and "rid \<noteq> []"
    and "api_key req = Some ''mysecurekey''" and "body req = Inr b"
    and "\<exists>p\<in>set products. field p ''id'' = Str rid"
  shows "\<exists>i old merged.
           i < length products \<and> old = products ! i \<and> field old ''id'' = Str rid
           \<and> (\<forall>j<i. field (products ! j) ''id'' \<noteq> Str rid)
           \<and> handle products req uuid =
               (\<lparr>status = 200, content = ProductJson merged\<rparr>, products[i := merged])
           \<and> (\<forall>k. b k = None \<longrightarrow> merged k = old k)
           \<and> (\<forall>k v. b k = Some v \<longrightarrow> merged k = Some v)"
proof -
  let ?ix = "findIndex (has_id (Str rid)) products"
  let ?i = "nat ?ix"
  let ?merged = "products ! ?i ++ b"
  have r: "first_match routes (req_method req) (path req) =
      Some (UpdateProduct, [''id'' \<mapsto> rid])"
    using assms(1,2,3) by (simp add: route_put)
  have ne: "?ix \<noteq> - 1"
    using assms(6) by (simp add: findIndex_none has_id_def)
  from findIndex_found [OF ne] have
    f: "?i < length products" "has_id (Str rid) (products ! ?i)"
       "\<forall>j < ?i. \<not> has_id (Str rid) (products ! j)"
    by simp_all
  have "update_product products (Str rid) b =
      (Inr \<lparr>status = 200, content = ProductJson ?merged\<rparr>, products[?i := ?merged])"
    using ne f(1) by (simp add: update_product_def Let_def)
  then have h: "handle products req uuid =
      (\<lparr>status = 200, content = ProductJson ?merged\<rparr>, products[?i := ?merged])"
    by (simp add: handle_routed [OF assms(5,4) r] run_handler_def param_id)
  have keep: "\<forall>k. b k = None \<longrightarrow> ?merged k = (products ! ?i) k"
    by (simp add: map_add_def)
  have over: "\<forall>k v. b k = Some v \<longrightarrow> ?merged k = Some v"
    by (simp add: map_add_def)
  from f h keep over show ?thesis
    unfolding has_id_def by blast
qed

theorem update_merges_body_witness:
  "handle seed
     \<lparr>req_method = PUT, path = [''api'', ''products'', ''2''],
      api_key = Some ''mysecurekey'', query = Map.empty,
      body = Inr [''price'' \<mapsto> Num 750]\<rparr>
     ''110ec58a-a0f2-4ac4-8393-c866d813b8d1'' =
   (\<lparr>status = 200, content = ProductJson (seed ! 1 ++ [''price'' \<mapsto> Num 750])\<rparr>,
    seed[1 := seed ! 1 ++ [''price'' \<mapsto> Num 750]])
   \<and> (seed ! 1 ++ [''price'' \<mapsto> Num 750]) ''price'' = Some (Num 750)
   \<and> (seed ! 1 ++ [''price'' \<mapsto> Num 750]) ''name'' = Some (Str ''Smartphone'')"
proof -
  let ?b = "[''price'' \<mapsto> Num 750] :: jsobject"
  let ?req = "\<lparr>req_method = PUT, path = [''api'', ''products'', ''2''],
      api_key = Some ''mysecurekey'', query = Map.empty, body = Inr ?b\<rparr>"
  let ?u = "''110ec58a-a0f2-4ac4-8393-c866d813b8d1''"
  have ex: "\<exists>p\<in>set seed. field p ''id'' = Str ''2''"
    by (simp add: seed_def field_def)
  from update_merges_body [where req = ?req and rid = "''2''" and b = ?b
      and products = seed and uuid = ?u, OF _ _ _ _ _ ex]
  obtain i old merged where
    i: "i < length seed" and old: "old = seed ! i" and id: "field old ''id'' = Str ''2''"
    and h: "handle seed ?req ?u =
        (\<lparr>status = 200, content = ProductJson merged\<rparr>, seed[i := merged])"
    and keep: "\<forall>k. ?b k = None \<longrightarrow> merged k = old k"
    and over: "\<forall>k v. ?b k = Some v \<longrightarrow> merged k = Some v"
    by auto
  from i have "i = 0 \<or> i = 1 \<or> i = 2"
    by (auto simp: seed_def)
  with id old have i1: "i = 1"
    by (auto simp: seed_def field_def)
  have m: "merged = seed ! 1 ++ ?b"
  proof (rule ext)
    fix k
    show "merged k = (seed ! 1 ++ ?b) k"
      using keep over old i1 by (cases "?b k") (auto simp: map_add_def)
  qed
  have vals: "(seed ! 1 ++ ?b) ''price'' = Some (Num 750)"
    "(seed ! 1 ++ ?b) ''name'' = Some (Str ''Smartphone'')"
    by (simp_all add: seed_def)
  from h i1 m vals show ?thesis by simp
qed

section \<open>Creating\<close>

text \<open>
  Claim C5. For every \<^verbatim>\<open>POST /api/products\<close> with the valid API key, the response is
  400 with the error \<^verbatim>\<open>ValidationError\<close> if and only if one of \<^verbatim>\<open>name\<close>,
  \<^verbatim>\<open>price\<close>, \<^verbatim>\<open>category\<close> is missing from the body or falsy, and then the catalog is
  unchanged. Otherwise the response is 201 with a product that has the generated id and
  the submitted \<^verbatim>\<open>name\<close>, \<^verbatim>\<open>description\<close>, \<^verbatim>\<open>price\<close> and \<^verbatim>\<open>category\<close>, and the
  submitted \<^verbatim>\<open>inStock\<close> (true when it is omitted or null); this product is appended
  to the catalog.
\<close>

theorem create_validates_required_fields:
  assumes "req_method req = POST" and "path req = [''api'', ''products'']"
    and "api_key req = Some ''mysecurekey''" and "body req = Inr b"
  shows "((status (fst (handle products req uuid)) = 400
            \<and> (\<exists>msg. content (fst (handle products req uuid)) =
                   ErrorJson ''ValidationError'' msg))
          = (missing_or_falsy b ''name'' \<or> missing_or_falsy b ''price''
               \<or> missing_or_falsy b ''category''))
     \<and> (missing_or_falsy b ''name'' \<or> missing_or_falsy b ''price''
           \<or> missing_or_falsy b ''category'' \<longrightarrow>
         handle products req uuid =
           (\<lparr>status = 400,
             content = ErrorJson ''ValidationError''
               ''Name, price, and category are required''\<rparr>, products))
     \<and> (\<not> (missing_or_falsy b ''name'' \<or> missing_or_falsy b ''price''
              \<or> missing_or_falsy b ''category'') \<longrightarrow>
         (\<exists>new. handle products req uuid =
                   (\<lparr>status = 201, content = ProductJson new\<rparr>, products @ [new])
                 \<and> new ''id'' = Some (Str uuid)
                 \<and> field new ''name'' = field b ''name''
                 \<and> field new ''description'' = field b ''description''
                 \<and> field new ''price'' = field b ''price''
                 \<and> field new ''category'' = field b ''category''
                 \<and> field new ''inStock'' =
                     (if field b ''inStock'' = Undefined \<or> field b ''inStock'' = Null
                      then Bool True else field b ''inStock'')))"
proof -
  have r: "first_match routes (req_method req) (path req) = Some (CreateProduct, Map.empty)"
    using assms(1,2) by (simp add: route_post)
  have mf: "\<And>k. missing_or_falsy b k = (\<not> truthy (field b k))"
    by (simp add: missing_or_falsy_def field_def split: option.splits)
  have nl: "\<And>v. nullish v (Bool True) = (if v = Undefined \<or> v = Null then Bool True else v)"
    by (case_tac v) simp_all
  show ?thesis
    by (simp add: handle_routed [OF assms(4,3) r] run_handler_def create_product_def Let_def
        mf nl error_handler_Validation field_def)
qed

theorem create_validates_required_fields_witness:
  "(\<exists>new. handle seed
        \<lparr>req_method = POST, path = [''api'', ''products''],
         api_key = Some ''mysecurekey'', query = Map.empty,
         body = Inr [''name'' \<mapsto> Str ''Desk'', ''price'' \<mapsto> Num 300,
                     ''category'' \<mapsto> Str ''furniture'']\<rparr>
        ''110ec58a-a0f2-4ac4-8393-c866d813b8d1'' =
      (\<lparr>status = 201, content = ProductJson new\<rparr>, seed @ [new])
      \<and> field new ''id'' = Str ''110ec58a-a0f2-4ac4-8393-c866d813b8d1''
      \<and> field new ''name'' = Str ''Desk''
      \<and> field new ''inStock'' = Bool True)
   \<and> handle seed
        \<lparr>req_method = POST, path = [''api'', ''products''],
         api_key = Some ''mysecurekey'', query = Map.empty,
         body = Inr [''name'' \<mapsto> Str ''Desk'', ''price'' \<mapsto> Num 0,
                     ''category'' \<mapsto> Str ''furniture'']\<rparr>
        ''110ec58a-a0f2-4ac4-8393-c866d813b8d1'' =
      (\<lparr>status = 400,
        content = ErrorJson ''ValidationError'' ''Name, price, and category are required''\<rparr>,
       seed)"
proof -
  let ?u = "''110ec58a-a0f2-4ac4-8393-c866d813b8d1''"
  let ?good = "[''name'' \<mapsto> Str ''Desk'', ''price'' \<mapsto> Num 300,
      ''category'' \<mapsto> Str ''furniture''] :: jsobject"
  let ?bad = "[''name'' \<mapsto> Str ''Desk'', ''price'' \<mapsto> Num 0,
      ''category'' \<mapsto> Str ''furniture''] :: jsobject"
  have g: "\<not> (missing_or_falsy ?good ''name'' \<or> missing_or_falsy ?good ''price''
      \<or> missing_or_falsy ?good ''category'')"
    by (simp add: missing_or_falsy_def)
  have b: "missing_or_falsy ?bad ''price''"
    by (simp add: missing_or_falsy_def)
  note good = create_validates_required_fields
    [where req = "\<lparr>req_method = POST, path = [''api'', ''products''],
        api_key = Some ''mysecurekey'', query = Map.empty, body = Inr ?good\<rparr>"
      and b = ?good and products = seed and uuid = ?u, simplified]
  note bad = create_validates_required_fields
    [where req = "\<lparr>req_method = POST, path = [''api'', ''products''],
        api_key = Some ''mysecurekey'', query = Map.empty, body = Inr ?bad\<rparr>"
      and b = ?bad and products = seed and uuid = ?u, simplified]
  from good g have 1:
    "\<exists>new. handle seed
        \<lparr>req_method = POST, path = [''api'', ''products''],
         api_key = Some ''mysecurekey'', query = Map.empty, body = Inr ?good\<rparr> ?u =
      (\<lparr>status = 201, content = ProductJson new\<rparr>, seed @ [new])
      \<and> field new ''id'' = Str ?u \<and> field new ''name'' = Str ''Desk''
      \<and> field new ''inStock'' = Bool True"
    by (auto simp: field_def)
  from bad b have 2:
    "handle seed
        \<lparr>req_method = POST, path = [''api'', ''products''],
         api_key = Some ''mysecurekey'', query = Map.empty, body = Inr ?bad\<rparr> ?u =
      (\<lparr>status = 400,
        content = ErrorJson ''ValidationError'' ''Name, price, and category are required''\<rparr>,
       seed)"
    by simp
  from 1 2 show ?thesis by blast
qed

section \<open>The stats path\<close>

text \<open>
  Claim C2. For every catalog with no product whose id is the string \<^verbatim>\<open>stats\<close>, a
  \<^verbatim>\<open>GET /api/products/stats\<close> is matched by the route \<^verbatim>\<open>/api/products/:id\<close>, with
  \<^verbatim>\<open>stats\<close> as the id, and answered 404 with the error \<^verbatim>\<open>NotFoundError\<close> and the
  message \<^verbatim>\<open>Product not found\<close>. The stats handler is never reached: no method and
  path at all select it.
\<close>

theorem stats_path_taken_by_id_route:
  assumes "req_method req = GET" and "path req = [''api'', ''products'', ''stats'']"
    and "api_key req = Some ''mysecurekey''" and "body req = Inr b"
    and "\<forall>p\<in>set products. field p ''id'' \<noteq> Str ''stats''"
  shows "first_match routes (req_method req) (path req) =
           Some (GetProduct, [''id'' \<mapsto> ''stats''])
         \<and> handle products req uuid =
             (\<lparr>status = 404, content = ErrorJson ''NotFoundError'' ''Product not found''\<rparr>,
              products)
         \<and> (\<forall>m p h ps. first_match routes m p = Some (h, ps) \<longrightarrow> h \<noteq> Stats)"
proof -
  have r: "first_match routes (req_method req) (path req) =
      Some (GetProduct, [''id'' \<mapsto> ''stats''])"
    using assms(1,2) by (simp add: route_get_id)
  have "find (has_id (Str ''stats'')) products = None"
    using assms(5) by (simp add: find_none has_id_def)
  then have "get_product products (Str ''stats'') =
      (Inl (NotFoundError ''Product not found''), products)"
    by (simp add: get_product_def)
  then have "handle products req uuid =
      (\<lparr>status = 404, content = ErrorJson ''NotFoundError'' ''Product not found''\<rparr>, products)"
    by (simp add: handle_routed [OF assms(4,3) r] run_handler_def param_id
        error_handler_NotFound)
  with r show ?thesis
    using stats_never_matched by blast
qed

theorem stats_path_taken_by_id_route_witness:
  "first_match routes GET [''api'', ''products'', ''stats''] =
     Some (GetProduct, [''id'' \<mapsto> ''stats''])
   \<and> handle seed
        \<lparr>req_method = GET, path = [''api'', ''products'', ''stats''],
         api_key = Some ''mysecurekey'', query = Map.empty, body = Inr Map.empty\<rparr>
        ''110ec58a-a0f2-4ac4-8393-c866d813b8d1'' =
      (\<lparr>status = 404, content = ErrorJson ''NotFoundError'' ''Product not found''\<rparr>, seed)"
proof -
  have h: "\<forall>p\<in>set seed. field p ''id'' \<noteq> Str ''stats''"
    by (simp add: seed_def field_def)
  show ?thesis
    using stats_path_taken_by_id_route
      [where req = "\<lparr>req_method = GET, path = [''api'', ''products'', ''stats''],
         api_key = Some ''mysecurekey'', query = Map.empty, body = Inr Map.empty\<rparr>"
       and b = Map.empty and products = seed
       and uuid = "''110ec58a-a0f2-4ac4-8393-c866d813b8d1''", OF _ _ _ _ h]
    by simp
qed

section \<open>The API key\<close>

text \<open>
  Claim C7, as stated: every request whose \<^verbatim>\<open>x-api-key\<close> header is absent or wrong is
  answered 400 with the error \<^verbatim>\<open>ValidationError\<close>. It fails for a request whose body
  the JSON parser rejects: the parser is registered before the key check (lines 10 and
  43, against line 46), so its error is the one that reaches the error handler.
\<close>

theorem malformed_body_precedes_key_check:
  "api_key \<lparr>req_method = GET, path = [''api'', ''products''], api_key = None,
            query = Map.empty,
            body = Inl \<lparr>name = ''SyntaxError'', message = ''Unexpected end of JSON input'',
                        statusCode = Some 400\<rparr>\<rparr> \<noteq> Some ''mysecurekey''
   \<and> fst (handle seed
        \<lparr>req_method = GET, path = [''api'', ''products''], api_key = None,
         query = Map.empty,
         body = Inl \<lparr>name = ''SyntaxError'', message = ''Unexpected end of JSON input'',
                     statusCode = Some 400\<rparr>\<rparr>
        ''110ec58a-a0f2-4ac4-8393-c866d813b8d1'') =
      \<lparr>status = 400, content = ErrorJson ''SyntaxError'' ''Unexpected end of JSON input''\<rparr>
   \<and> fst (handle seed
        \<lparr>req_method = GET, path = [''api'', ''products''], api_key = None,
         query = Map.empty,
         body = Inl \<lparr>name = ''SyntaxError'', message = ''Unexpected end of JSON input'',
                     statusCode = Some 400\<rparr>\<rparr>
        ''110ec58a-a0f2-4ac4-8393-c866d813b8d1'') \<noteq>
      \<lparr>status = 400, content = ErrorJson ''ValidationError'' ''Forbidden. Invalid API Key.''\<rparr>"
  by (simp add: handle_def error_handler_def)

text \<open>
  Claim C7, amended. For every request whose \<^verbatim>\<open>x-api-key\<close> header is absent or differs
  from \<^verbatim>\<open>mysecurekey\<close>, no route handler runs and the catalog is unchanged: when the
  JSON parser rejects the body of the request, the response is the one the error handler
  makes of the parser's error; when the parser accepts the body, the response is 400
  with the error \<^verbatim>\<open>ValidationError\<close> and the message \<^verbatim>\<open>Forbidden. Invalid API Key.\<close>
\<close>

theorem invalid_key_rejected:
  assumes "api_key req \<noteq> Some ''mysecurekey''"
  shows "(\<forall>err. body req = Inl err \<longrightarrow>
            handle products req uuid = (error_handler err, products))
         \<and> (\<forall>b. body req = Inr b \<longrightarrow>
               handle products req uuid =
                 (\<lparr>status = 400,
                   content = ErrorJson ''ValidationError'' ''Forbidden. Invalid API Key.''\<rparr>,
                  products))"
  using assms by (simp add: handle_def error_handler_Validation)

theorem invalid_key_rejected_witness:
  "handle seed
     \<lparr>req_method = DELETE, path = [''api'', ''products'', ''1''],
      api_key = Some ''letmein'', query = Map.empty, body = Inr Map.empty\<rparr>
     ''110ec58a-a0f2-4ac4-8393-c866d813b8d1'' =
   (\<lparr>status = 400,
     content = ErrorJson ''ValidationError'' ''Forbidden. Invalid API Key.''\<rparr>, seed)
   \<and> handle seed
     \<lparr>req_method = DELETE, path = [''api'', ''products'', ''1''],
      api_key = None, query = Map.empty,
      body = Inl \<lparr>name = ''SyntaxError'', message = ''Unexpected end of JSON input'',
                  statusCode = Some 400\<rparr>\<rparr>
     ''110ec58a-a0f2-4ac4-8393-c866d813b8d1'' =
   (\<lparr>status = 400, content = ErrorJson ''SyntaxError'' ''Unexpected end of JSON input''\<rparr>,
    seed)"
proof -
  have 1: "handle seed
     \<lparr>req_method = DELETE, path = [''api'', ''products'', ''1''],
      api_key = Some ''letmein'', query = Map.empty, body = Inr Map.empty\<rparr>
     ''110ec58a-a0f2-4ac4-8393-c866d813b8d1'' =
   (\<lparr>status = 400,
     content = ErrorJson ''ValidationError'' ''Forbidden. Invalid API Key.''\<rparr>, seed)"
    using invalid_key_rejected
      [where req = "\<lparr>req_method = DELETE, path = [''api'', ''products'', ''1''],
         api_key = Some ''letmein'', query = Map.empty, body = Inr Map.empty\<rparr>"
       and products = seed and uuid = "''110ec58a-a0f2-4ac4-8393-c866d813b8d1''"]
    by simp
  have 2: "handle seed
     \<lparr>req_method = DELETE, path = [''api'', ''products'', ''1''],
      api_key = None, query = Map.empty,
      body = Inl \<lparr>name = ''SyntaxError'', message = ''Unexpected end of JSON input'',
                  statusCode = Some 400\<rparr>\<rparr>
     ''110ec58a-a0f2-4ac4-8393-c866d813b8d1'' =
   (\<lparr>status = 400, content = ErrorJson ''SyntaxError'' ''Unexpected end of JSON input''\<rparr>,
    seed)"
    using invalid_key_rejected
      [where req = "\<lparr>req_method = DELETE, path = [''api'', ''products'', ''1''],
         api_key = None, query = Map.empty,
         body = Inl \<lparr>name = ''SyntaxError'', message = ''Unexpected end of JSON input'',
                     statusCode = Some 400\<rparr>\<rparr>"
       and products = seed and uuid = "''110ec58a-a0f2-4ac4-8393-c866d813b8d1''"]
    by (simp add: error_handler_def)
  from 1 2 show ?thesis by simp
qed

section \<open>Listing\<close>

lemma list_handler_cong:
  assumes "filter_products products q = filter_products products q'"
    and "query_page q = query_page q'" and "query_limit q = query_limit q'"
  shows "list_handler products q = list_handler products q'"
  unfolding list_handler_def list_products_def assms ..

lemma run_handler_cong:
  assumes "list_handler products q = list_handler products q'"
  shows "run_handler h ps products q b uuid = run_handler h ps products q' b uuid"
  using assms by (cases h) (simp_all add: run_handler_def)

lemma handle_query_cong:
  assumes "list_handler products q = list_handler products q'"
  shows "handle products (req\<lparr>query := q\<rparr>) uuid = handle products (req\<lparr>query := q'\<rparr>) uuid"
  by (simp add: handle_def run_handler_cong [OF assms]
      cong: sum.case_cong option.case_cong if_cong)

text \<open>
  Claim C10. For every catalog, a request whose \<^verbatim>\<open>category\<close> parameter is the empty
  string gets the response of the same request without the parameter, and so does one
  whose \<^verbatim>\<open>search\<close> parameter is the empty string: an empty string is falsy, and the
  filter is not applied.
\<close>

theorem empty_filter_parameter_ignored:
  "handle products (req\<lparr>query := (query req)(''category'' \<mapsto> QStr [])\<rparr>) uuid =
     handle products (req\<lparr>query := (query req)(''category'' := None)\<rparr>) uuid
   \<and> handle products (req\<lparr>query := (query req)(''search'' \<mapsto> QStr [])\<rparr>) uuid =
     handle products (req\<lparr>query := (query req)(''search'' := None)\<rparr>) uuid"
proof -
  let ?q = "query req"
  have c: "list_handler products (?q(''category'' \<mapsto> QStr [])) =
           list_handler products (?q(''category'' := None))"
    by (rule list_handler_cong)
       (simp_all add: filter_products_def q_param_def query_page_def query_limit_def Let_def
          cong: sum.case_cong)
  have s: "list_handler products (?q(''search'' \<mapsto> QStr [])) =
           list_handler products (?q(''search'' := None))"
    by (rule list_handler_cong)
       (simp_all add: filter_products_def q_param_def query_page_def query_limit_def Let_def
          cong: sum.case_cong)
  show ?thesis
    using handle_query_cong [OF c] handle_query_cong [OF s] by simp
qed

theorem empty_filter_parameter_ignored_witness:
  "handle seed
     \<lparr>req_method = GET, path = [''api'', ''products''], api_key = Some ''mysecurekey'',
      query = [''search'' \<mapsto> QStr ''top'', ''category'' \<mapsto> QStr []],
      body = Inr Map.empty\<rparr>
     ''110ec58a-a0f2-4ac4-8393-c866d813b8d1'' =
   handle seed
     \<lparr>req_method = GET, path = [''api'', ''products''], api_key = Some ''mysecurekey'',
      query = [''search'' \<mapsto> QStr ''top''],
      body = Inr Map.empty\<rparr>
     ''110ec58a-a0f2-4ac4-8393-c866d813b8d1''"
  using empty_filter_parameter_ignored
    [where req = "\<lparr>req_method = GET, path = [''api'', ''products''],
       api_key = Some ''mysecurekey'', query = [''search'' \<mapsto> QStr ''top''],
       body = Inr Map.empty\<rparr>"
     and products = seed and uuid = "''110ec58a-a0f2-4ac4-8393-c866d813b8d1''"]
  by simp

subsection \<open>The filters\<close>

lemma filterE_Inr:
  "filterE f xs = Inr ys \<Longrightarrow>
     ys = filter (\<lambda>x. f x = Inr True) xs \<and> (\<forall>x\<in>set xs. \<exists>keep. f x = Inr keep)"
  by (induction xs arbitrary: ys) (auto split: sum.splits if_splits)

lemma filterE_total:
  "\<forall>x\<in>set xs. \<exists>keep. f x = Inr keep \<Longrightarrow> \<exists>ys. filterE f xs = Inr ys \<and> set ys \<subseteq> set xs"
  by (induction xs) (auto split: sum.splits)

lemma str_includes_sublist: "str_includes s t = sublist t s"
  by (induction s) (simp_all add: sublist_Cons_right)

lemma category_matches_Inr:
  "category_matches v p = Inr keep \<Longrightarrow> keep = matches_category v p"
  by (auto simp: category_matches_def toLowerCase_def matches_category_def
      equals_ignoring_case_def split: jsval.splits sum.splits)

lemma search_matches_Inr:
  "search_matches v p = Inr keep \<Longrightarrow> keep = matches_search v p"
  by (auto simp: search_matches_def toLowerCase_def matches_search_def
      contains_ignoring_case_def str_includes_sublist split: jsval.splits sum.splits)

lemma filterE_category:
  assumes "filterE (category_matches v) xs = Inr ys"
  shows "ys = filter (matches_category v) xs"
proof -
  from filterE_Inr [OF assms] have
    ys: "ys = filter (\<lambda>x. category_matches v x = Inr True) xs"
    and ok: "\<forall>x\<in>set xs. \<exists>keep. category_matches v x = Inr keep"
    by simp_all
  have "\<forall>x\<in>set xs. (category_matches v x = Inr True) = matches_category v x"
    using ok category_matches_Inr by fastforce
  with ys show ?thesis
    by (simp cong: filter_cong)
qed

lemma filterE_search:
  assumes "filterE (search_matches v) xs = Inr ys"
  shows "ys = filter (matches_search v) xs"
proof -
  from filterE_Inr [OF assms] have
    ys: "ys = filter (\<lambda>x. search_matches v x = Inr True) xs"
    and ok: "\<forall>x\<in>set xs. \<exists>keep. search_matches v x = Inr keep"
    by simp_all
  have "\<forall>x\<in>set xs. (search_matches v x = Inr True) = matches_search v x"
    using ok search_matches_Inr by fastforce
  with ys show ?thesis
    by (simp cong: filter_cong)
qed

lemma filter_products_Inr:
  assumes "filter_products products q = Inr filtered"
  shows "filtered = filter (satisfies_filters q) products"
proof -
  let ?c = "q_param q ''category''"
  let ?s = "q_param q ''search''"
  from assms obtain mid where
    1: "(if truthy ?c then filterE (category_matches ?c) products else Inr products) = Inr mid"
    and 2: "(if truthy ?s then filterE (search_matches ?s) mid else Inr mid) = Inr filtered"
    by (auto simp: filter_products_def Let_def split: sum.splits)
  have m: "mid = filter (\<lambda>p. truthy ?c \<longrightarrow> matches_category ?c p) products"
    using 1 filterE_category by (auto split: if_splits)
  have f: "filtered = filter (\<lambda>p. truthy ?s \<longrightarrow> matches_search ?s p) mid"
    using 2 filterE_search by (auto split: if_splits)
  show ?thesis
    unfolding f m satisfies_filters_def by (simp add: conj_commute)
qed

lemma set_slice: "set (slice xs a b) \<subseteq> set xs"
  unfolding slice_def Let_def
  by (meson set_take_subset set_drop_subset subset_trans)

lemma handle_list:
  assumes "req_method req = GET" and "path req = [''api'', ''products'']"
    and "api_key req = Some ''mysecurekey''" and "body req = Inr b"
  shows "handle products req uuid =
     (case list_products products (query req) of
        Inl e \<Rightarrow> (error_handler e, products)
      | Inr r \<Rightarrow> (\<lparr>status = 200, content = PageJson r\<rparr>, products))"
proof -
  have r: "first_match routes (req_method req) (path req) = Some (ListProducts, Map.empty)"
    using assms(1,2) by (simp add: route_list)
  show ?thesis
    by (simp add: handle_routed [OF assms(4,3) r] run_handler_def list_handler_def
        split: sum.splits)
qed

text \<open>
  Claim C4. For every catalog and every \<^verbatim>\<open>GET /api/products\<close> that is answered with
  a page, every element of \<^verbatim>\<open>results\<close> has a category equal to the \<^verbatim>\<open>category\<close>
  parameter without regard to case, when that parameter is given (not empty), and a name
  that contains the \<^verbatim>\<open>search\<close> parameter without regard to case, when that one is
  given; and \<^verbatim>\<open>total\<close> is the number of products of the catalog that satisfy both
  filters.
\<close>

theorem list_results_satisfy_filters:
  assumes "req_method req = GET" and "path req = [''api'', ''products'']"
    and "api_key req = Some ''mysecurekey''" and "body req = Inr b"
    and "content (fst (handle products req uuid)) = PageJson r"
  shows "(\<forall>p\<in>set (results r). satisfies_filters (query req) p)
         \<and> total r = length (filter (satisfies_filters (query req)) products)"
proof -
  from assms(5) obtain filtered pg limit where
    f: "filter_products products (query req) = Inr filtered"
    and r: "r = paginate filtered pg limit"
    by (auto simp: handle_list [OF assms(1-4)] list_products_def error_handler_def
        split: sum.splits)
  from filter_products_Inr [OF f] have
    eq: "filtered = filter (satisfies_filters (query req)) products" .
  have "set (results r) \<subseteq> set filtered"
    unfolding r paginate_def Let_def using set_slice by simp
  with eq have "\<forall>p\<in>set (results r). satisfies_filters (query req) p"
    by auto
  moreover have "total r = length filtered"
    unfolding r paginate_def Let_def by simp
  ultimately show ?thesis
    using eq by simp
qed


lemmas eval_defs = list_products_def filter_products_def q_param_def category_matches_def
  search_matches_def toLowerCase_def str_lower_def lower_char_def field_def
  paginate_def query_page_def query_limit_def parseInt_value_def slice_def rel_index_def
  num_sub_def to_number_def overflow_bound_def Let_def inf_times_def

theorem list_results_satisfy_filters_witness:
  "content (fst (handle seed
      \<lparr>req_method = GET, path = [''api'', ''products''], api_key = Some ''mysecurekey'',
       query = [''category'' \<mapsto> QStr ''Electronics'', ''search'' \<mapsto> QStr ''PHONE''],
       body = Inr Map.empty\<rparr>
      ''110ec58a-a0f2-4ac4-8393-c866d813b8d1'')) =
     PageJson \<lparr>page = Fin 1, total = 1, results = [seed ! 1]\<rparr>
   \<and> satisfies_filters [''category'' \<mapsto> QStr ''Electronics'', ''search'' \<mapsto> QStr ''PHONE'']
        (seed ! 1)
   \<and> length (filter
        (satisfies_filters [''category'' \<mapsto> QStr ''Electronics'', ''search'' \<mapsto> QStr ''PHONE''])
        seed) = 1"
proof -
  let ?req = "\<lparr>req_method = GET, path = [''api'', ''products''],
       api_key = Some ''mysecurekey'',
       query = [''category'' \<mapsto> QStr ''Electronics'', ''search'' \<mapsto> QStr ''PHONE''],
       body = Inr Map.empty\<rparr>"
  let ?u = "''110ec58a-a0f2-4ac4-8393-c866d813b8d1''"
  have ev: "content (fst (handle seed ?req ?u)) =
      PageJson \<lparr>page = Fin 1, total = 1, results = [seed ! 1]\<rparr>"
    by (simp add: handle_list [where b = Map.empty] eval_defs seed_def)
  note th = list_results_satisfy_filters [where req = ?req and b = Map.empty, OF _ _ _ _ ev]
  have a: "satisfies_filters (query ?req) (seed ! 1)"
    using th [THEN conjunct1] by simp
  have b: "length (filter (satisfies_filters (query ?req)) seed) = 1"
    using th [THEN conjunct2, symmetric] by simp
  from ev a b show ?thesis
    by simp
qed

subsection \<open>When the handler throws\<close>









lemma filterE_succeeds:
  "(\<exists>ys. filterE f xs = Inr ys) = (\<forall>x\<in>set xs. \<exists>keep. f x = Inr keep)"
  using filterE_Inr [of f xs] filterE_total [of xs f] by blast


lemma category_matches_succeeds:
  "(\<exists>keep. category_matches v p = Inr keep) = (is_string v \<and> is_string (field p ''category''))"
  by (auto simp: is_string_def category_matches_def toLowerCase_def split: jsval.splits)

lemma search_matches_succeeds:
  "(\<exists>keep. search_matches v p = Inr keep) = (is_string v \<and> is_string (field p ''name''))"
  by (auto simp: is_string_def search_matches_def toLowerCase_def split: jsval.splits)





lemma filter_products_succeeds:
  "(\<exists>filtered. filter_products products q = Inr filtered) = filters_apply products q"
proof -
  let ?c = "q_param q ''category''"
  let ?s = "q_param q ''search''"
  let ?passed = "if truthy ?c then filter (matches_category ?c) products else products"
  let ?first = "if truthy ?c then filterE (category_matches ?c) products else Inr products"
  have first: "(\<exists>mid. ?first = Inr mid) =
      (truthy ?c \<longrightarrow> (\<forall>p\<in>set products. is_string ?c \<and> is_string (field p ''category'')))"
    by (simp add: filterE_succeeds category_matches_succeeds)
  have mid: "\<And>mid. ?first = Inr mid \<Longrightarrow> mid = ?passed"
    using filterE_category by (auto split: if_splits)
  have second: "\<And>mid. (\<exists>filtered.
        (if truthy ?s then filterE (search_matches ?s) mid else Inr mid) = Inr filtered) =
      (truthy ?s \<longrightarrow> (\<forall>p\<in>set mid. is_string ?s \<and> is_string (field p ''name'')))"
    by (simp add: filterE_succeeds search_matches_succeeds)
  show ?thesis
  proof (cases ?first)
    case (Inl e)
    with first show ?thesis
      by (auto simp: filter_products_def filters_apply_def Let_def)
  next
    case (Inr m)
    from mid [OF Inr] have m: "m = ?passed" .
    from Inr first have ok:
      "truthy ?c \<longrightarrow> (\<forall>p\<in>set products. is_string ?c \<and> is_string (field p ''category''))"
      by blast
    have "(\<exists>filtered. filter_products products q = Inr filtered) =
        (\<exists>filtered. (if truthy ?s then filterE (search_matches ?s) m else Inr m) = Inr filtered)"
      using Inr by (simp add: filter_products_def Let_def)
    also have "\<dots> = (truthy ?s \<longrightarrow> (\<forall>p\<in>set m. is_string ?s \<and> is_string (field p ''name'')))"
      by (rule second)
    also have "\<dots> = filters_apply products q"
      using ok unfolding m filters_apply_def Let_def by blast
    finally show ?thesis .
  qed
qed






subsection \<open>Pagination\<close>

lemma overflow_bound_big: "2 ^ 32 < overflow_bound"
  by (simp add: overflow_bound_def)

lemma overflow_bound_pos: "0 < overflow_bound"
  by (simp add: overflow_bound_def)

lemma slice_Fin:
  assumes "0 \<le> a" and "0 \<le> c"
  shows "slice xs (Fin a) (Fin c) = half_open_slice xs (nat a) (nat c)"
proof (cases "nat a \<le> length xs")
  case True
  then show ?thesis
    using assms by (auto simp: slice_def rel_index_def half_open_slice_def min_def Let_def)
next
  case False
  then show ?thesis
    using assms by (simp add: slice_def rel_index_def half_open_slice_def min_def Let_def)
qed

lemma slice_to_end:
  assumes "0 \<le> a" and "length xs \<le> c"
  shows "slice xs (Fin a) PosInf = half_open_slice xs (nat a) c"
proof (cases "nat a \<le> length xs")
  case True
  then show ?thesis
    using assms by (simp add: slice_def rel_index_def half_open_slice_def min_def)
next
  case False
  then show ?thesis
    using assms by (simp add: slice_def rel_index_def half_open_slice_def min_def)
qed

lemma slice_beyond:
  assumes "length xs \<le> a"
  shows "slice xs PosInf PosInf = half_open_slice xs a c"
  using assms by (simp add: slice_def rel_index_def half_open_slice_def)

lemma paginate_finite:
  assumes len: "length filtered < 2 ^ 32" and P: "0 < P" and L: "0 < L"
  shows "paginate filtered (Fin P) (Fin L) =
     \<lparr>page = Fin P, total = length filtered,
      results = half_open_slice filtered (nat ((P - 1) * L)) (nat (P * L))\<rparr>"
proof -
  let ?s = "(P - 1) * L"
  have s0: "0 \<le> ?s" using P L by simp
  have PL: "P * L = ?s + L" by (simp add: algebra_simps)
  have "int (length filtered) < 2 ^ 32"
    using len of_nat_less_iff [of "length filtered" "2 ^ 32", where 'a = int] by simp
  then have lenb: "int (length filtered) < overflow_bound"
    using overflow_bound_big by linarith
  have b0: "0 < overflow_bound" by (rule overflow_bound_pos)
  have sge: "P - 1 \<le> ?s"
    using P L by (simp add: mult_le_cancel_left1)
  have start: "num_mul (num_sub (Fin P) (Fin 1)) (Fin L) =
      (if overflow_bound \<le> ?s then PosInf else Fin ?s)"
  proof (cases "overflow_bound \<le> P - 1")
    case True
    with sge have "overflow_bound \<le> ?s" by linarith
    with True L show ?thesis
      by (simp add: num_sub_def to_number_def inf_times_def)
  next
    case False
    with P b0 have "to_number (P - 1) = Fin (P - 1)"
      by (simp add: to_number_def)
    with s0 b0 show ?thesis
      by (simp add: num_sub_def to_number_def)
  qed
  show ?thesis
  proof (cases "overflow_bound \<le> ?s")
    case True
    with lenb have "length filtered \<le> nat ?s" by linarith
    from slice_beyond [OF this] True start show ?thesis
      by (simp add: paginate_def Let_def)
  next
    case False
    show ?thesis
    proof (cases "overflow_bound \<le> ?s + L")
      case True
      with lenb have "length filtered \<le> nat (P * L)" unfolding PL by linarith
      from slice_to_end [OF s0 this] True False start s0 L show ?thesis
        by (simp add: paginate_def Let_def to_number_def)
    next
      case c: False
      have "0 \<le> ?s + L" using s0 L by linarith
      from slice_Fin [OF s0 this] c False start s0 L b0 show ?thesis
        by (simp add: paginate_def Let_def to_number_def PL)
    qed
  qed
qed

lemma half_open_slice_length: "length (half_open_slice xs a c) \<le> c - a"
  by (simp add: half_open_slice_def)

lemma half_open_slice_beyond: "length xs \<le> a \<Longrightarrow> half_open_slice xs a c = []"
  by (simp add: half_open_slice_def)

text \<open>
  A limit written as 1 followed by 309 zeros is beyond the range of a double:
  \<^verbatim>\<open>parseInt\<close> returns \<^verbatim>\<open>Infinity\<close>.
\<close>

lemma foldl_zeros:
  "foldl (\<lambda>acc c. acc * 10 + digit_value c) a (replicate n (CHR ''0'')) = a * 10 ^ n"
  by (induction n arbitrary: a) (simp_all add: digit_value_def)

lemma digits_value_one_zeros:
  "digits_value 10 (CHR ''1'' # replicate n (CHR ''0'')) = 10 ^ n"
proof -
  have "digit_value (CHR ''1'') = 1"
    by (simp add: digit_value_def)
  then show ?thesis
    by (simp add: digits_value_def foldl_zeros)
qed

lemma parseInt_one_zeros:
  "parseInt (CHR ''1'' # replicate n (CHR ''0'')) = to_number (10 ^ n)"
  by (simp add: parseInt_def is_space_def Let_def digit_value_def digits_value_one_zeros)

lemma parseInt_overflow: "parseInt (CHR ''1'' # replicate 309 (CHR ''0'')) = PosInf"
  by (simp add: parseInt_one_zeros to_number_def overflow_bound_def)

lemma length_below_bound:
  assumes "length xs < 2 ^ 32"
  shows "int (length xs) < overflow_bound - 1"
proof -
  have "int (length xs) < 2 ^ 32"
    using assms of_nat_less_iff [of "length xs" "2 ^ 32", where 'a = int] by simp
  moreover have "(2::int) ^ 32 < overflow_bound - 1"
    by (simp add: overflow_bound_def)
  ultimately show ?thesis by linarith
qed

text \<open>
  The page for page \<open>P\<close> and limit \<open>L\<close>, each finite or so large that it is an infinity.
  Only page 1 with an infinite limit departs from the slice: its start index is
  \<^verbatim>\<open>0 * Infinity\<close>, which is \<^verbatim>\<open>NaN\<close>.
\<close>

lemma paginate_numbers:
  assumes len: "length filtered < 2 ^ 32" and P: "0 < P" and L: "0 < L"
  shows "paginate filtered (to_number P) (to_number L) =
     \<lparr>page = to_number P, total = length filtered,
      results =
        (if P = 1 \<and> overflow_bound \<le> L then []
         else half_open_slice filtered (nat ((P - 1) * L)) (nat (P * L)))\<rparr>"
proof -
  let ?s = "(P - 1) * L"
  have b0: "0 < overflow_bound" by (rule overflow_bound_pos)
  have b1: "1 < overflow_bound" by (simp add: overflow_bound_def)
  note lenb = length_below_bound [OF len]
  have sge: "P - 1 \<le> ?s"
    using P L by (simp add: mult_le_cancel_left1)
  have beyond: "slice filtered PosInf PosInf =
      half_open_slice filtered (nat ?s) (nat (P * L))" if "overflow_bound - 1 \<le> ?s"
  proof -
    from that lenb have "length filtered \<le> nat ?s" by linarith
    then show ?thesis by (rule slice_beyond)
  qed
  show ?thesis
  proof (cases "overflow_bound \<le> P")
    case True
    then have pg: "to_number P = PosInf" by (simp add: to_number_def)
    have lim: "num_mul PosInf (to_number L) = PosInf"
      using L by (simp add: to_number_def inf_times_def)
    have en: "num_add PosInf (to_number L) = PosInf"
      using L b0 by (simp add: to_number_def)
    from True sge have "overflow_bound - 1 \<le> ?s" by linarith
    from beyond [OF this] True b1 show ?thesis
      by (simp add: paginate_def Let_def pg num_sub_def lim en)
  next
    case False
    with P b0 have pg: "to_number P = Fin P" by (simp add: to_number_def)
    show ?thesis
    proof (cases "overflow_bound \<le> L")
      case c: False
      with L b0 have lm: "to_number L = Fin L" by (simp add: to_number_def)
      from c show ?thesis
        unfolding pg lm by (simp add: paginate_finite [OF len P L])
    next
      case True
      then have lm: "to_number L = PosInf" by (simp add: to_number_def)
      have sub: "num_sub (Fin P) (Fin 1) = Fin (P - 1)"
        using P False b0 by (simp add: num_sub_def to_number_def)
      show ?thesis
      proof (cases "P = 1")
        case p1: True
        have st: "num_mul (num_sub (to_number P) (Fin 1)) PosInf = NaN"
          using p1 pg sub by (simp add: inf_times_def)
        have "slice filtered NaN NaN = []"
          by (simp add: slice_def rel_index_def)
        with p1 True show ?thesis
          unfolding paginate_def Let_def lm st by simp
      next
        case p2: False
        with P have "1 \<le> P - 1" by linarith
        with True L have "overflow_bound \<le> ?s"
          by (metis mult.commute mult_le_cancel_left1 order_trans zero_less_one_class.zero_le_one
              mult_mono mult_1 order.strict_implies_order)
        then have "overflow_bound - 1 \<le> ?s" by linarith
        from beyond [OF this] p2 P show ?thesis
          by (simp add: paginate_def Let_def pg lm sub inf_times_def)
      qed
    qed
  qed
qed

text \<open>
  Claim C3, amended. For every catalog (an array: fewer than \<open>2 ^ 32\<close> products) and
  every request on which neither filter throws, with a page and a limit that
  \<^verbatim>\<open>parseInt\<close> reads as positive integers \<open>P\<close> and \<open>L\<close>: the response is 200, so
  pagination raises no error; \<^verbatim>\<open>results\<close> is the half-open slice from \<open>(P - 1) * L\<close> to
  \<open>P * L\<close> of the filtered sequence, except that it is empty when \<open>P\<close> is 1 and \<open>L\<close> is
  \<open>2 ^ 1024 - 2 ^ 970\<close> or more (the limit is then \<^verbatim>\<open>Infinity\<close>); it has at most \<open>L\<close>
  elements; and it is empty when \<open>(P - 1) * L\<close> is at least \<^verbatim>\<open>total\<close>.
\<close>

theorem pagination_is_slice:
  assumes "req_method req = GET" and "path req = [''api'', ''products'']"
    and "api_key req = Some ''mysecurekey''" and "body req = Inr b"
    and "length products < 2 ^ 32"
    and "filters_apply products (query req)"
    and "query_page (query req) = Inr (to_number P)" and "0 < P"
    and "query_limit (query req) = Inr (to_number L)" and "0 < L"
  shows "\<exists>filtered rs.
           filtered = filter (satisfies_filters (query req)) products
           \<and> handle products req uuid =
               (\<lparr>status = 200,
                 content = PageJson
                   \<lparr>page = to_number P, total = length filtered, results = rs\<rparr>\<rparr>,
                products)
           \<and> rs = (if P = 1 \<and> overflow_bound \<le> L then []
                   else half_open_slice filtered (nat ((P - 1) * L)) (nat (P * L)))
           \<and> int (length rs) \<le> L
           \<and> (int (length filtered) \<le> (P - 1) * L \<longrightarrow> rs = [])"
proof -
  let ?filtered = "filter (satisfies_filters (query req)) products"
  let ?slice = "half_open_slice ?filtered (nat ((P - 1) * L)) (nat (P * L))"
  let ?rs = "if P = 1 \<and> overflow_bound \<le> L then [] else ?slice"
  from assms(6) obtain filtered where
    "filter_products products (query req) = Inr filtered"
    unfolding filter_products_succeeds [symmetric] ..
  with filter_products_Inr have f: "filter_products products (query req) = Inr ?filtered"
    by blast
  have len: "length ?filtered < 2 ^ 32"
    using assms(5) length_filter_le [of "satisfies_filters (query req)" products] by linarith
  have h: "handle products req uuid =
      (\<lparr>status = 200,
        content = PageJson \<lparr>page = to_number P, total = length ?filtered, results = ?rs\<rparr>\<rparr>,
       products)"
    by (simp add: handle_list [OF assms(1-4)] list_products_def f assms(7,9)
        paginate_numbers [OF len assms(8,10)])
  have PL: "P * L = (P - 1) * L + L" by (simp add: algebra_simps)
  have s0: "0 \<le> (P - 1) * L" using assms(8,10) by simp
  have "length ?slice \<le> nat (P * L) - nat ((P - 1) * L)"
    by (rule half_open_slice_length)
  also have "\<dots> = nat L"
    unfolding PL using s0 assms(10) by linarith
  finally have "int (length ?slice) \<le> L"
    using assms(10) by linarith
  then have l: "int (length ?rs) \<le> L"
    using assms(10) by simp
  have "int (length ?filtered) \<le> (P - 1) * L \<longrightarrow> ?slice = []"
    using half_open_slice_beyond [of ?filtered "nat ((P - 1) * L)"] by auto
  then have e: "int (length ?filtered) \<le> (P - 1) * L \<longrightarrow> ?rs = []"
    by simp
  from h l e show ?thesis by blast
qed

theorem pagination_is_slice_witness:
  "handle seed
      \<lparr>req_method = GET, path = [''api'', ''products''], api_key = Some ''mysecurekey'',
       query = [''page'' \<mapsto> QStr ''2'', ''limit'' \<mapsto> QStr ''1''],
       body = Inr Map.empty\<rparr>
      ''110ec58a-a0f2-4ac4-8393-c866d813b8d1'' =
   (\<lparr>status = 200,
     content = PageJson \<lparr>page = Fin 2, total = 3, results = [seed ! 1]\<rparr>\<rparr>, seed)
   \<and> handle seed
      \<lparr>req_method = GET, path = [''api'', ''products''], api_key = Some ''mysecurekey'',
       query = [''page'' \<mapsto> QStr ''1'',
                ''limit'' \<mapsto> QStr (CHR ''1'' # replicate 309 (CHR ''0''))],
       body = Inr Map.empty\<rparr>
      ''110ec58a-a0f2-4ac4-8393-c866d813b8d1'' =
   (\<lparr>status = 200,
     content = PageJson \<lparr>page = Fin 1, total = 3, results = []\<rparr>\<rparr>, seed)"
proof -
  let ?q = "[''page'' \<mapsto> QStr ''2'', ''limit'' \<mapsto> QStr ''1''] :: query"
  let ?req = "\<lparr>req_method = GET, path = [''api'', ''products''],
       api_key = Some ''mysecurekey'', query = ?q, body = Inr Map.empty\<rparr>"
  let ?u = "''110ec58a-a0f2-4ac4-8393-c866d813b8d1''"
  have len: "length seed < 2 ^ 32" by (simp add: seed_def)
  have f: "filters_apply seed (query ?req)"
    by (simp add: filters_apply_def q_param_def)
  have all: "filter (satisfies_filters (query ?req)) seed = seed"
    by (simp add: satisfies_filters_def q_param_def)
  have n2: "to_number 2 = Fin 2" and n1: "to_number 1 = Fin 1"
    by (simp_all add: to_number_def overflow_bound_def)
  have pg: "query_page (query ?req) = Inr (to_number 2)"
    unfolding n2
    by (simp add: query_page_def parseInt_value_def parseInt_def is_space_def digit_value_def
        digits_value_def to_number_def overflow_bound_def)
  have lm: "query_limit (query ?req) = Inr (to_number 1)"
    unfolding n1
    by (simp add: query_limit_def parseInt_value_def parseInt_def is_space_def digit_value_def
        digits_value_def to_number_def overflow_bound_def)
  from pagination_is_slice [where req = ?req and b = Map.empty and uuid = ?u,
      OF _ _ _ _ len f pg _ lm]
  have "handle seed ?req ?u =
      (\<lparr>status = 200,
        content = PageJson \<lparr>page = Fin 2, total = length seed,
          results = half_open_slice seed (nat ((2 - 1) * 1)) (nat (2 * 1))\<rparr>\<rparr>, seed)"
    unfolding all n2 by simp
  moreover have "half_open_slice seed (nat ((2 - 1) * 1)) (nat (2 * 1)) = [seed ! 1]"
    by (simp add: half_open_slice_def seed_def)
  moreover have l3: "length seed = 3" by (simp add: seed_def)
  ultimately have first: "handle seed ?req ?u =
      (\<lparr>status = 200,
        content = PageJson \<lparr>page = Fin 2, total = 3, results = [seed ! 1]\<rparr>\<rparr>, seed)"
    by simp
  let ?qb = "[''page'' \<mapsto> QStr ''1'',
      ''limit'' \<mapsto> QStr (CHR ''1'' # replicate 309 (CHR ''0''))] :: query"
  let ?big = "\<lparr>req_method = GET, path = [''api'', ''products''],
       api_key = Some ''mysecurekey'', query = ?qb, body = Inr Map.empty\<rparr>"
  have fb: "filters_apply seed (query ?big)"
    by (simp add: filters_apply_def q_param_def)
  have allb: "filter (satisfies_filters (query ?big)) seed = seed"
    by (simp add: satisfies_filters_def q_param_def)
  have nb: "to_number (10 ^ 309) = PosInf"
    by (simp add: to_number_def overflow_bound_def)
  have over: "overflow_bound \<le> 10 ^ 309"
    by (simp add: overflow_bound_def)
  have pgb: "query_page (query ?big) = Inr (to_number 1)"
    unfolding n1
    by (simp add: query_page_def parseInt_value_def parseInt_def is_space_def digit_value_def
        digits_value_def to_number_def overflow_bound_def)
  have lmb: "query_limit (query ?big) = Inr (to_number (10 ^ 309))"
    unfolding nb by (simp add: query_limit_def parseInt_value_def parseInt_overflow)
  have p1: "(0::int) < 1" by simp
  have pL: "(0::int) < 10 ^ 309" by (rule zero_less_power) simp
  have m: "req_method ?big = GET" and pa: "path ?big = [''api'', ''products'']"
    and k: "api_key ?big = Some ''mysecurekey''" and bo: "body ?big = Inr Map.empty"
    by simp_all
  from pagination_is_slice [OF m pa k bo len fb pgb p1 lmb pL, of ?u]
  obtain filtered rs where
    a: "filtered = filter (satisfies_filters (query ?big)) seed"
    and h: "handle seed ?big ?u =
      (\<lparr>status = 200,
        content = PageJson \<lparr>page = to_number 1, total = length filtered, results = rs\<rparr>\<rparr>,
       seed)"
    and c: "rs = (if (1::int) = 1 \<and> overflow_bound \<le> 10 ^ 309 then []
        else half_open_slice filtered (nat ((1 - 1) * 10 ^ 309)) (nat (1 * 10 ^ 309)))"
    by blast
  have "rs = []"
    using c over by (simp only: simp_thms if_True)
  with h a have second: "handle seed ?big ?u =
      (\<lparr>status = 200,
        content = PageJson \<lparr>page = Fin 1, total = 3, results = []\<rparr>\<rparr>, seed)"
    using allb by (simp add: n1 l3)
  from first second show ?thesis by simp
qed

text \<open>
  Claim C3, as stated, for every catalog and every positive integers \<open>P\<close> and \<open>L\<close>. It
  fails for page 1 with a limit written as 1 followed by 309 zeros:
  \<^verbatim>\<open>(1 - 1) * Infinity\<close> is \<^verbatim>\<open>NaN\<close>, so is the end index, and \<^verbatim>\<open>slice(NaN, NaN)\<close> is
  empty, while the slice from 0 to \<open>L\<close> of the three seed products is all of them. It
  also fails where a filter throws: on the catalog that an accepted create with the
  category 5 leaves, page 1 with limit 1 and a category filter is answered 500.
\<close>

theorem limit_beyond_double_range:
  "digits_value 10 (CHR ''1'' # replicate 309 (CHR ''0'')) = 10 ^ 309
   \<and> filter_products seed
        [''page'' \<mapsto> QStr ''1'', ''limit'' \<mapsto> QStr (CHR ''1'' # replicate 309 (CHR ''0''))] =
      Inr seed
   \<and> fst (handle seed
        \<lparr>req_method = GET, path = [''api'', ''products''], api_key = Some ''mysecurekey'',
         query = [''page'' \<mapsto> QStr ''1'',
                  ''limit'' \<mapsto> QStr (CHR ''1'' # replicate 309 (CHR ''0''))],
         body = Inr Map.empty\<rparr>
        ''110ec58a-a0f2-4ac4-8393-c866d813b8d1'') =
      \<lparr>status = 200, content = PageJson \<lparr>page = Fin 1, total = 3, results = []\<rparr>\<rparr>
   \<and> half_open_slice seed (nat ((1 - 1) * 10 ^ 309)) (nat (1 * 10 ^ 309)) = seed
   \<and> seed \<noteq> []
   \<and> fst (handle
        (seed @
          [[''id'' \<mapsto> Str ''110ec58a-a0f2-4ac4-8393-c866d813b8d1'', ''name'' \<mapsto> Str ''Desk'',
            ''description'' \<mapsto> Undefined, ''price'' \<mapsto> Num 300, ''category'' \<mapsto> Num 5,
            ''inStock'' \<mapsto> Bool True]])
        \<lparr>req_method = GET, path = [''api'', ''products''], api_key = Some ''mysecurekey'',
         query = [''category'' \<mapsto> QStr ''kitchen'', ''page'' \<mapsto> QStr ''1'',
                  ''limit'' \<mapsto> QStr ''1''],
         body = Inr Map.empty\<rparr>
        ''7c9e6679-7425-40de-944b-e07fc1f90ae7'') =
      \<lparr>status = 500,
       content = ErrorJson ''TypeError'' ''p.category.toLowerCase is not a function''\<rparr>"
proof -
  let ?big = "CHR ''1'' # replicate 309 (CHR ''0'')"
  let ?q = "[''page'' \<mapsto> QStr ''1'', ''limit'' \<mapsto> QStr ?big] :: query"
  have d: "digits_value 10 ?big = 10 ^ 309"
    by (rule digits_value_one_zeros)
  have f: "filter_products seed ?q = Inr seed"
    by (simp add: filter_products_def q_param_def)
  have pg: "query_page ?q = Inr (Fin 1)"
    by (simp add: query_page_def parseInt_value_def parseInt_def is_space_def digit_value_def
        digits_value_def to_number_def overflow_bound_def)
  have lm: "query_limit ?q = Inr PosInf"
    by (simp add: query_limit_def parseInt_value_def parseInt_overflow)
  have p: "paginate seed (Fin 1) PosInf = \<lparr>page = Fin 1, total = 3, results = []\<rparr>"
    by (simp add: paginate_def num_sub_def to_number_def overflow_bound_def inf_times_def
        slice_def rel_index_def seed_def)
  have h: "fst (handle seed
        \<lparr>req_method = GET, path = [''api'', ''products''], api_key = Some ''mysecurekey'',
         query = ?q, body = Inr Map.empty\<rparr>
        ''110ec58a-a0f2-4ac4-8393-c866d813b8d1'') =
      \<lparr>status = 200, content = PageJson \<lparr>page = Fin 1, total = 3, results = []\<rparr>\<rparr>"
    by (simp add: handle_list [where b = Map.empty] list_products_def f pg lm p)
  have s: "half_open_slice seed (nat ((1 - 1) * 10 ^ 309)) (nat (1 * 10 ^ 309)) = seed"
    by (simp add: half_open_slice_def seed_def)
  have n: "seed \<noteq> []" by (simp add: seed_def)
  have t: "fst (handle
        (seed @
          [[''id'' \<mapsto> Str ''110ec58a-a0f2-4ac4-8393-c866d813b8d1'', ''name'' \<mapsto> Str ''Desk'',
            ''description'' \<mapsto> Undefined, ''price'' \<mapsto> Num 300, ''category'' \<mapsto> Num 5,
            ''inStock'' \<mapsto> Bool True]])
        \<lparr>req_method = GET, path = [''api'', ''products''], api_key = Some ''mysecurekey'',
         query = [''category'' \<mapsto> QStr ''kitchen'', ''page'' \<mapsto> QStr ''1'',
                  ''limit'' \<mapsto> QStr ''1''],
         body = Inr Map.empty\<rparr>
        ''7c9e6679-7425-40de-944b-e07fc1f90ae7'') =
      \<lparr>status = 500,
       content = ErrorJson ''TypeError'' ''p.category.toLowerCase is not a function''\<rparr>"
    by (simp add: handle_list [where b = Map.empty] eval_defs seed_def error_handler_Type
        parseInt_def is_space_def digit_value_def digits_value_def)
  from d f h s n t show ?thesis by blast
qed

section \<open>Product ids\<close>

text \<open>
  Claim C1: every product id is unique in the catalog and the id of an existing product
  never changes, whatever the body of a PUT. The update handler merges the whole body,
  an \<^verbatim>\<open>id\<close> in it included: on the seed catalog, \<^verbatim>\<open>PUT /api/products/1\<close> with the body
  \<^verbatim>\<open>{"id": "2"}\<close> turns the id of the first product from 1 into 2, and the catalog then
  holds two products with the id 2.
\<close>

theorem put_overwrites_id:
  "unique_ids seed
   \<and> field (seed ! 0) ''id'' = Str ''1''
   \<and> map (\<lambda>p. field p ''id'')
        (snd (handle seed
          \<lparr>req_method = PUT, path = [''api'', ''products'', ''1''],
           api_key = Some ''mysecurekey'', query = Map.empty,
           body = Inr [''id'' \<mapsto> Str ''2'']\<rparr>
          ''110ec58a-a0f2-4ac4-8393-c866d813b8d1'')) =
      [Str ''2'', Str ''2'', Str ''3'']
   \<and> \<not> unique_ids
        (snd (handle seed
          \<lparr>req_method = PUT, path = [''api'', ''products'', ''1''],
           api_key = Some ''mysecurekey'', query = Map.empty,
           body = Inr [''id'' \<mapsto> Str ''2'']\<rparr>
          ''110ec58a-a0f2-4ac4-8393-c866d813b8d1''))"
  by (simp add: unique_ids_def handle_def route_put run_handler_def param_id
      update_product_def has_id_def field_def seed_def Let_def)

text \<open>
  What holds instead. A request whose body has no \<^verbatim>\<open>id\<close> field leaves the list of ids
  as it is, or appends the generated uuid to it, or takes one id out of it.
\<close>

lemma create_ids:
  "ids_of (snd (create_product products b uuid)) = ids_of products
   \<or> ids_of (snd (create_product products b uuid)) = ids_of products @ [Str uuid]"
  by (simp add: create_product_def Let_def ids_of_def field_def)

lemma update_ids:
  assumes "b ''id'' = None"
  shows "ids_of (snd (update_product products rid b)) = ids_of products"
proof (cases "findIndex (has_id rid) products = - 1")
  case True
  then show ?thesis by (simp add: update_product_def)
next
  case False
  let ?i = "nat (findIndex (has_id rid) products)"
  from findIndex_found [OF False] have i: "?i < length products" by simp
  have "field (products ! ?i ++ b) ''id'' = field (products ! ?i) ''id''"
    using assms by (simp add: field_def map_add_def)
  then have "ids_of (products[?i := products ! ?i ++ b]) = ids_of products"
    using i by (simp add: ids_of_def map_update list_update_same_conv)
  with False show ?thesis
    by (simp add: update_product_def Let_def)
qed

lemma delete_ids:
  "ids_of (snd (delete_product products rid)) = ids_of products
   \<or> (\<exists>i<length products.
         ids_of (snd (delete_product products rid)) =
           take i (ids_of products) @ drop (Suc i) (ids_of products))"
proof (cases "findIndex (has_id rid) products = - 1")
  case True
  then show ?thesis by (simp add: delete_product_def)
next
  case False
  let ?i = "nat (findIndex (has_id rid) products)"
  from findIndex_found [OF False] have i: "?i < length products" by simp
  have "ids_of (snd (delete_product products rid)) =
      take ?i (ids_of products) @ drop (Suc ?i) (ids_of products)"
    using False by (simp add: delete_product_def Let_def ids_of_def take_map drop_map)
  with i show ?thesis by blast
qed

lemma step_ids:
  assumes "keeps_id req"
  shows "ids_of (snd (handle products req uuid)) = ids_of products
         \<or> ids_of (snd (handle products req uuid)) = ids_of products @ [Str uuid]
         \<or> (\<exists>i<length products.
               ids_of (snd (handle products req uuid)) =
                 take i (ids_of products) @ drop (Suc i) (ids_of products))"
proof (cases "body req")
  case (Inl e)
  then show ?thesis by (simp add: handle_def)
next
  case (Inr b)
  with assms have b: "b ''id'' = None" by (simp add: keeps_id_def)
  show ?thesis
  proof (cases "api_key req = Some ''mysecurekey''")
    case False
    with Inr show ?thesis by (simp add: handle_def)
  next
    case True
    show ?thesis
    proof (cases "first_match routes (req_method req) (path req)")
      case None
      with Inr True show ?thesis by (simp add: handle_def)
    next
      case (Some hp)
      obtain h ps where hp: "hp = (h, ps)" by (cases hp)
      have s: "snd (handle products req uuid) =
          snd (run_handler h ps products (query req) b uuid)"
        using Inr True Some hp by (simp add: handle_def split: prod.splits sum.splits)
      show ?thesis
      proof (cases h)
        case CreateProduct
        with create_ids [of products b uuid] show ?thesis
          unfolding s by (simp add: run_handler_def) blast
      next
        case UpdateProduct
        with update_ids [where b = b and products = products and rid = "param ps ''id''", OF b]
        show ?thesis
          unfolding s by (simp add: run_handler_def)
      next
        case DeleteProduct
        with delete_ids [of products "param ps ''id''"] show ?thesis
          unfolding s by (simp add: run_handler_def) blast
      next
        case Root
        then show ?thesis
          unfolding s by (simp add: run_handler_def root_handler_def)
      next
        case ListProducts
        then show ?thesis
          unfolding s by (simp add: run_handler_def list_handler_def split: sum.splits)
      next
        case GetProduct
        then show ?thesis
          unfolding s by (simp add: run_handler_def get_product_def split: option.splits)
      next
        case Stats
        then show ?thesis
          unfolding s by (simp add: run_handler_def stats_handler_def)
      qed
    qed
  qed
qed

lemma distinct_remove_nth:
  "distinct xs \<Longrightarrow> distinct (take i xs @ drop (Suc i) xs)"
proof (induction xs arbitrary: i)
  case Nil
  then show ?case by simp
next
  case (Cons x xs)
  show ?case
  proof (cases i)
    case 0
    with Cons.prems show ?thesis by simp
  next
    case (Suc j)
    from Cons.prems have "x \<notin> set xs" and "distinct xs" by simp_all
    with Cons.IH [of j] Suc show ?thesis
      by (auto dest: in_set_takeD in_set_dropD)
  qed
qed

text \<open>
  From a catalog with unique ids, every sequence of requests in which no body has an
  \<^verbatim>\<open>id\<close> field and every generated uuid is fresh leads to a catalog with unique ids.
\<close>

theorem ids_stay_unique:
  assumes "unique_ids products" and "well_behaved products rs"
  shows "unique_ids (run_requests products rs)"
  using assms
proof (induction rs arbitrary: products)
  case Nil
  then show ?case by simp
next
  case (Cons r rs)
  obtain req uuid where r: "r = (req, uuid)" by (cases r)
  from Cons.prems(2) r have k: "keeps_id req" and f: "Str uuid \<notin> set (ids_of products)"
    and w: "well_behaved (snd (handle products req uuid)) rs"
    by simp_all
  have d: "distinct (ids_of products)"
    using Cons.prems(1) by (simp add: unique_ids_def ids_of_def)
  have "distinct (ids_of (snd (handle products req uuid)))"
    using step_ids [OF k, of products uuid] d f distinct_remove_nth [OF d]
    by auto
  then have "unique_ids (snd (handle products req uuid))"
    by (simp add: unique_ids_def ids_of_def)
  from Cons.IH [OF this w] r show ?case by simp
qed


theorem ids_stay_unique_witness:
  "unique_ids
     (run_requests seed
        [(\<lparr>req_method = POST, path = [''api'', ''products''],
           api_key = Some ''mysecurekey'', query = Map.empty,
           body = Inr [''name'' \<mapsto> Str ''Desk'', ''price'' \<mapsto> Num 300,
                       ''category'' \<mapsto> Str ''furniture'']\<rparr>,
          ''110ec58a-a0f2-4ac4-8393-c866d813b8d1''),
         (\<lparr>req_method = PUT, path = [''api'', ''products'', ''2''],
           api_key = Some ''mysecurekey'', query = Map.empty,
           body = Inr [''price'' \<mapsto> Num 750]\<rparr>,
          ''7c9e6679-7425-40de-944b-e07fc1f90ae7''),
         (\<lparr>req_method = DELETE, path = [''api'', ''products'', ''1''],
           api_key = Some ''mysecurekey'', query = Map.empty, body = Inr Map.empty\<rparr>,
          ''16fd2706-8baf-433b-82eb-8c7fada847da'')])"
proof -
  have u: "unique_ids seed"
    by (simp add: unique_ids_def seed_def field_def)
  show ?thesis
    by (rule ids_stay_unique [OF u])
       (simp add: keeps_id_def ids_of_def handle_def route_post route_put route_delete
         run_handler_def param_id create_product_def update_product_def delete_product_def
         has_id_def field_def seed_def Let_def)
qed

end
